theory Spec2Isabelle
  imports Complex_Main "HOL-Library.Char_ord" "HOL-Library.List_Lexorder" "HOL-Library.Multiset"
begin

section \<open>Python values, strings and dictionaries\<close>

text \<open>
  The module \<^verbatim>\<open>mt_metrics_eval/tasks.py\<close> is embedded function by function.
  Every \<^verbatim>\<open>raise\<close> and every failing \<^verbatim>\<open>assert\<close> is a value \<open>Inl e\<close> of a
  result type \<open>error + 'a\<close>; a normal return is \<open>Inr\<close>.
\<close>

datatype error =
  AssertionError | AttributeError | KeyError | ValueError | TypeError | ZeroDivisionError

text \<open>Sequencing of a list of results: the first failure is the failure of the whole
  (a comprehension stops at the first element that raises).\<close>

fun sequence_err :: "(error + 'a) list \<Rightarrow> error + 'a list" where
  "sequence_err [] = Inr []"
| "sequence_err (Inl e # _) = Inl e"
| "sequence_err (Inr x # rs) = (case sequence_err rs of Inl e \<Rightarrow> Inl e | Inr xs \<Rightarrow> Inr (x # xs))"

subsection \<open>Strings\<close>

text \<open>
  A Python \<^verbatim>\<open>str\<close> is a \<open>string\<close>; a \<open>char\<close> stands for the code point of the
  same number (code points below 256). Strings are ordered as Python orders them:
  lexicographically by code point.
\<close>

text \<open>\<^verbatim>\<open>s.split(sep)\<close> for a separator of one character.\<close>

fun split_aux :: "char \<Rightarrow> string \<Rightarrow> string \<Rightarrow> string list" where
  "split_aux sep cur [] = [cur]"
| "split_aux sep cur (c # cs) =
     (if c = sep then cur # split_aux sep [] cs else split_aux sep (cur @ [c]) cs)"

definition str_split :: "string \<Rightarrow> char \<Rightarrow> string list" where
  "str_split s sep = split_aux sep [] s"

text \<open>\<^verbatim>\<open>str.isspace\<close> on one character: the code points below 256 that Python counts
  as whitespace (tab, line feed, vertical tab, form feed, carriage return, the four
  separators 28 to 31, space, next line 133 and no-break space 160).\<close>

definition py_isspace :: "char \<Rightarrow> bool" where
  "py_isspace c = (of_char c \<in> {9, 10, 11, 12, 13, 28, 29, 30, 31, 32, 133, 160 :: nat})"

text \<open>\<^verbatim>\<open>s.split()\<close> with no argument: the maximal runs of characters that are not
  whitespace.\<close>

fun split_ws_aux :: "string \<Rightarrow> string \<Rightarrow> string list" where
  "split_ws_aux cur [] = (if cur = [] then [] else [cur])"
| "split_ws_aux cur (c # cs) =
     (if py_isspace c then (if cur = [] then split_ws_aux [] cs else cur # split_ws_aux [] cs)
      else split_ws_aux (cur @ [c]) cs)"

definition str_split_ws :: "string \<Rightarrow> string list" where
  "str_split_ws s = split_ws_aux [] s"

text \<open>\<^verbatim>\<open>sep.join(xs)\<close>.\<close>

fun str_join :: "string \<Rightarrow> string list \<Rightarrow> string" where
  "str_join sep [] = []"
| "str_join sep [x] = x"
| "str_join sep (x # y # ys) = x @ sep @ str_join sep (y # ys)"

text \<open>\<^verbatim>\<open>s.replace(' ', '')\<close>.\<close>

definition remove_spaces :: "string \<Rightarrow> string" where
  "remove_spaces s = filter (\<lambda>c. c \<noteq> CHR '' '') s"

subsection \<open>Dictionaries\<close>

text \<open>
  A \<^verbatim>\<open>dict\<close> keeps its keys in insertion order, and the code depends on that order
  (\<^verbatim>\<open>list(d.keys())\<close>, \<^verbatim>\<open>list(d.values())\<close>, \<^verbatim>\<open>str(d)\<close>). A dictionary is therefore a
  list of key/value pairs with pairwise distinct keys, in insertion order.
\<close>

type_synonym ('k, 'v) pydict = "('k \<times> 'v) list"

text \<open>\<^verbatim>\<open>d[k] = v\<close>: an existing key keeps its place, a new key goes last.\<close>

fun dict_set :: "'k \<Rightarrow> 'v \<Rightarrow> ('k, 'v) pydict \<Rightarrow> ('k, 'v) pydict" where
  "dict_set k v [] = [(k, v)]"
| "dict_set k v ((k', v') # d) =
     (if k' = k then (k', v) # d else (k', v') # dict_set k v d)"

text \<open>\<^verbatim>\<open>d[k]\<close>: raises \<^verbatim>\<open>KeyError\<close> for a missing key.\<close>

definition dict_get :: "('k, 'v) pydict \<Rightarrow> 'k \<Rightarrow> error + 'v" where
  "dict_get d k = (case map_of d k of None \<Rightarrow> Inl KeyError | Some v \<Rightarrow> Inr v)"

text \<open>\<^verbatim>\<open>dict(pairs)\<close>: the pairs are inserted from left to right.\<close>

definition dict :: "('k \<times> 'v) list \<Rightarrow> ('k, 'v) pydict" where
  "dict kvs = fold (\<lambda>(k, v) d. dict_set k v d) kvs []"

subsection \<open>Values and their textual form\<close>

text \<open>
  A \<^verbatim>\<open>float\<close> is carried as the text that \<^verbatim>\<open>repr\<close> prints for it (\<^verbatim>\<open>0.05\<close>, \<^verbatim>\<open>0.5\<close>):
  the configuration only stores and prints these numbers, it never computes with them.
  A \<^verbatim>\<open>set\<close> is carried as the list of its elements in iteration order, which is the
  order \<^verbatim>\<open>str\<close> prints.
\<close>

datatype pyfloat = FloatRepr string

datatype pyval =
    PNone
  | PBool bool
  | PInt int
  | PFloat pyfloat
  | PStr string
  | PList "pyval list"
  | PTuple "pyval list"
  | PSet "pyval list"
  | PDict "(pyval \<times> pyval) list"

text \<open>Decimal digits of a natural number, and \<^verbatim>\<open>str\<close> of an \<^verbatim>\<open>int\<close>.\<close>

definition digit_char :: "nat \<Rightarrow> char" where
  "digit_char n = char_of (of_char CHR ''0'' + n)"

fun str_nat :: "nat \<Rightarrow> string" where
  "str_nat n = (if n < 10 then [digit_char n] else str_nat (n div 10) @ [digit_char (n mod 10)])"

declare str_nat.simps [simp del]

definition str_int :: "int \<Rightarrow> string" where
  "str_int i = (if i < 0 then CHR ''-'' # str_nat (nat (- i)) else str_nat (nat i))"

text \<open>\<^verbatim>\<open>repr\<close> of a \<^verbatim>\<open>str\<close>: single quotes, unless the text holds a single quote and
  no double quote; the quote and the backslash are escaped, tab, line feed and carriage
  return are written \<^verbatim>\<open>\t\<close>, \<^verbatim>\<open>\n\<close>, \<^verbatim>\<open>\r\<close>, and every other code point that is not
  printable is written \<^verbatim>\<open>\xNN\<close>.\<close>

definition hex_digit :: "nat \<Rightarrow> char" where
  "hex_digit n = (if n < 10 then digit_char n else char_of (of_char CHR ''a'' + (n - 10)))"

definition py_isprintable :: "char \<Rightarrow> bool" where
  "py_isprintable c =
     (let n = (of_char c :: nat) in (32 \<le> n \<and> n < 127) \<or> (161 \<le> n \<and> n \<noteq> 173))"

definition repr_char :: "char \<Rightarrow> char \<Rightarrow> string" where
  "repr_char quote c =
     (if c = quote \<or> c = CHR 0x5C then [CHR 0x5C, c]
      else if c = CHR 0x09 then [CHR 0x5C, CHR ''t'']
      else if c = CHR 0x0A then [CHR 0x5C, CHR ''n'']
      else if c = CHR 0x0D then [CHR 0x5C, CHR ''r'']
      else if py_isprintable c then [c]
      else [CHR 0x5C, CHR ''x'', hex_digit (of_char c div 16), hex_digit (of_char c mod 16)])"

definition repr_str :: "string \<Rightarrow> string" where
  "repr_str s =
     (let quote = (if CHR 0x27 \<in> set s \<and> CHR 0x22 \<notin> set s then CHR 0x22 else CHR 0x27)
      in [quote] @ concat (map (repr_char quote) s) @ [quote])"

text \<open>\<^verbatim>\<open>repr(v)\<close>. An empty set prints as \<^verbatim>\<open>set()\<close>, a tuple of one element keeps
  its comma.\<close>

fun py_repr :: "pyval \<Rightarrow> string" where
  "py_repr PNone = ''None''"
| "py_repr (PBool b) = (if b then ''True'' else ''False'')"
| "py_repr (PInt i) = str_int i"
| "py_repr (PFloat (FloatRepr s)) = s"
| "py_repr (PStr s) = repr_str s"
| "py_repr (PList xs) = ''['' @ str_join '', '' (map py_repr xs) @ '']''"
| "py_repr (PTuple xs) =
     (case xs of [x] \<Rightarrow> ''('' @ py_repr x @ '',)''
      | _ \<Rightarrow> ''('' @ str_join '', '' (map py_repr xs) @ '')'')"
| "py_repr (PSet xs) =
     (if xs = [] then ''set()'' else ''{'' @ str_join '', '' (map py_repr xs) @ ''}'')"
| "py_repr (PDict kvs) =
     ''{'' @ str_join '', '' (map (\<lambda>(k, v). py_repr k @ '': '' @ py_repr v) kvs) @ ''}''"

text \<open>\<^verbatim>\<open>str(v)\<close>, which is what an f-string \<^verbatim>\<open>f'{v}'\<close> inserts: a string stands for
  itself, every other value prints as its \<^verbatim>\<open>repr\<close>.\<close>

definition py_str :: "pyval \<Rightarrow> string" where
  "py_str v = (case v of PStr s \<Rightarrow> s | _ \<Rightarrow> py_repr v)"

section \<open>Task\<close>

text \<open>
  \<^verbatim>\<open>meta_info.DATA\<close> is a table of another module: test set, then language pair, then
  a record of which the constructor reads \<^verbatim>\<open>std_gold\<close> (level to gold name) and
  \<^verbatim>\<open>std_ref\<close>. It is a parameter of everything that reads it.
\<close>

record MetaInfo =
  std_gold :: "string \<rightharpoonup> string"
  std_ref :: string

type_synonym meta_data = "string \<rightharpoonup> (string \<rightharpoonup> MetaInfo)"

text \<open>The keys of \<^verbatim>\<open>CORRELATION_FUNCTIONS\<close>.\<close>

definition CORRELATION_FUNCTIONS :: "string list" where
  "CORRELATION_FUNCTIONS =
     [''pearson'', ''kendall'', ''spearman'', ''accuracy'', ''KendallLike'',
      ''KendallVariants'', ''KendallWithTiesOpt'']"

text \<open>\<^verbatim>\<open>Union[list[str], str]\<close> and \<^verbatim>\<open>Union[list[set[str]], set[str]]\<close>.\<close>

datatype gold_val = GoldStr string | GoldList "string list"

datatype refs_val = RefSet "string list" | RefList "string list list"

text \<open>The dataclass, with the types of its annotations.\<close>

record Task =
  test_set :: string
  lang :: string
  domain :: "string option"
  level :: string
  human :: bool
  avg_by :: string
  corr_fcn :: string
  k :: int
  gold :: "gold_val option"
  refs :: "refs_val option"
  close_refs :: "refs_val option"
  use_outliers :: bool
  primary :: bool
  pval :: pyfloat
  block_size :: int
  early_min :: pyfloat
  early_max :: pyfloat
  replace_nans_with_zeros :: bool
  perm_test :: string
  corr_fcn_args :: "(string, pyval) pydict option"

text \<open>The default of every field.\<close>

definition Task_defaults :: Task where
  "Task_defaults =
     \<lparr> test_set = ''wmt22'', lang = ''en-de'', domain = None, level = ''sys'',
       human = True, avg_by = ''none'', corr_fcn = ''pearson'', k = 1000,
       gold = None, refs = None, close_refs = None, use_outliers = False,
       primary = True, pval = FloatRepr ''0.05'', block_size = 100,
       early_min = FloatRepr ''0.02'', early_max = FloatRepr ''0.5'',
       replace_nans_with_zeros = False, perm_test = ''scores'', corr_fcn_args = None \<rparr>"

text \<open>\<^verbatim>\<open>Attributes()\<close>: the annotated names, in declaration order.\<close>

definition Attributes :: "string list" where
  "Attributes =
     [''test_set'', ''lang'', ''domain'', ''level'', ''human'', ''avg_by'', ''corr_fcn'',
      ''k'', ''gold'', ''refs'', ''close_refs'', ''use_outliers'', ''primary'', ''pval'',
      ''block_size'', ''early_min'', ''early_max'', ''replace_nans_with_zeros'',
      ''perm_test'', ''corr_fcn_args'']"

text \<open>\<^verbatim>\<open>_StdGold\<close> and \<^verbatim>\<open>_StdRefs\<close>: each subscript raises \<^verbatim>\<open>KeyError\<close> on a
  missing key.\<close>

definition StdGold :: "meta_data \<Rightarrow> Task \<Rightarrow> string \<Rightarrow> string \<Rightarrow> error + string" where
  "StdGold DATA self lg lv =
     (case DATA (test_set self) of None \<Rightarrow> Inl KeyError
      | Some langs \<Rightarrow>
          (case langs lg of None \<Rightarrow> Inl KeyError
           | Some info \<Rightarrow>
               (case std_gold info lv of None \<Rightarrow> Inl KeyError | Some g \<Rightarrow> Inr g)))"

definition StdRefs :: "meta_data \<Rightarrow> Task \<Rightarrow> string \<Rightarrow> error + string list" where
  "StdRefs DATA self lg =
     (case DATA (test_set self) of None \<Rightarrow> Inl KeyError
      | Some langs \<Rightarrow>
          (case langs lg of None \<Rightarrow> Inl KeyError | Some info \<Rightarrow> Inr [std_ref info]))"

text \<open>\<^verbatim>\<open>len\<close> of the two unions.\<close>

definition len_gold :: "gold_val \<Rightarrow> nat" where
  "len_gold g = (case g of GoldStr s \<Rightarrow> length s | GoldList xs \<Rightarrow> length xs)"

definition len_refs :: "refs_val \<Rightarrow> nat" where
  "len_refs r = (case r of RefSet xs \<Rightarrow> length xs | RefList xss \<Rightarrow> length xss)"

text \<open>The branch of \<^verbatim>\<open>__post_init__\<close> for \<^verbatim>\<open>corr_fcn == 'accuracy'\<close>: system-level
  accuracy over the language pairs \<open>sub_langs\<close>.\<close>

definition post_init_accuracy ::
  "meta_data \<Rightarrow> (string \<rightharpoonup> MetaInfo) \<Rightarrow> string list \<Rightarrow> Task \<Rightarrow> error + Task" where
  "post_init_accuracy DATA langs sub_langs self =
     (if level self \<noteq> ''sys'' then Inl AssertionError
      else if \<exists>sl \<in> set sub_langs. langs sl = None then Inl AssertionError
      else
        case (case gold self of
                None \<Rightarrow> (case sequence_err (map (\<lambda>sl. StdGold DATA self sl (level self)) sub_langs) of
                           Inl e \<Rightarrow> Inl e | Inr gs \<Rightarrow> Inr (GoldList gs))
              | Some g \<Rightarrow> Inr g) of
          Inl e \<Rightarrow> Inl e
        | Inr g \<Rightarrow>
           (case (case refs self of
                    None \<Rightarrow> (case sequence_err (map (\<lambda>sl. StdRefs DATA self sl) sub_langs) of
                               Inl e \<Rightarrow> Inl e | Inr rs \<Rightarrow> Inr (RefList rs))
                  | Some r \<Rightarrow> Inr r) of
              Inl e \<Rightarrow> Inl e
            | Inr r \<Rightarrow>
               (let c = (case close_refs self of
                           None \<Rightarrow> RefList (map (\<lambda>_. []) sub_langs) | Some c \<Rightarrow> c)
                in if len_gold g \<noteq> length sub_langs then Inl AssertionError
                   else if len_refs r \<noteq> length sub_langs then Inl AssertionError
                   else if len_refs c \<noteq> length sub_langs then Inl AssertionError
                   else Inr (self\<lparr>gold := Some g, refs := Some r, close_refs := Some c\<rparr>))))"

text \<open>The other branch: a standard correlation over a single language pair. The three
  \<^verbatim>\<open>isinstance\<close> assertions accept the scalar shapes only.\<close>

definition post_init_standard ::
  "meta_data \<Rightarrow> (string \<rightharpoonup> MetaInfo) \<Rightarrow> string list \<Rightarrow> Task \<Rightarrow> error + Task" where
  "post_init_standard DATA langs sub_langs self =
     (if length sub_langs \<noteq> 1 then Inl AssertionError
      else case langs (lang self) of
        None \<Rightarrow> Inl AssertionError
      | Some info \<Rightarrow>
         if std_gold info (level self) = None then Inl AssertionError
         else
           case (case gold self of
                   None \<Rightarrow> (case StdGold DATA self (lang self) (level self) of
                              Inl e \<Rightarrow> Inl e | Inr g \<Rightarrow> Inr (GoldStr g))
                 | Some g \<Rightarrow> Inr g) of
             Inl e \<Rightarrow> Inl e
           | Inr g \<Rightarrow>
              (case (case refs self of
                       None \<Rightarrow> (case StdRefs DATA self (lang self) of
                                  Inl e \<Rightarrow> Inl e | Inr r \<Rightarrow> Inr (RefSet r))
                     | Some r \<Rightarrow> Inr r) of
                 Inl e \<Rightarrow> Inl e
               | Inr r \<Rightarrow>
                  (let c = (case close_refs self of None \<Rightarrow> RefSet [] | Some c \<Rightarrow> c)
                   in case g of
                        GoldList _ \<Rightarrow> Inl AssertionError
                      | GoldStr _ \<Rightarrow>
                         (case r of
                            RefList _ \<Rightarrow> Inl AssertionError
                          | RefSet _ \<Rightarrow>
                             (case c of
                                RefList _ \<Rightarrow> Inl AssertionError
                              | RefSet _ \<Rightarrow>
                                 Inr (self\<lparr>gold := Some g, refs := Some r,
                                           close_refs := Some c\<rparr>))))))"

text \<open>\<^verbatim>\<open>sorted(d.items())\<close> on a dictionary with string keys: the keys are pairwise
  distinct, so the order of the pairs is the order of their keys.\<close>

definition sorted_items :: "(string, 'v) pydict \<Rightarrow> (string \<times> 'v) list" where
  "sorted_items d = sort_key fst d"

text \<open>\<^verbatim>\<open>__post_init__\<close>: check the fields and fill in the defaults that depend on the
  other fields; the last statement puts \<^verbatim>\<open>corr_fcn_args\<close> into key order.\<close>

definition post_init :: "meta_data \<Rightarrow> Task \<Rightarrow> error + Task" where
  "post_init DATA self =
     (case DATA (test_set self) of
        None \<Rightarrow> Inl AssertionError
      | Some langs \<Rightarrow>
         if corr_fcn self \<notin> set CORRELATION_FUNCTIONS then Inl AssertionError
         else
           let sub_langs = str_split (lang self) CHR '','' in
           case (if corr_fcn self = ''accuracy''
                 then post_init_accuracy DATA langs sub_langs self
                 else post_init_standard DATA langs sub_langs self) of
             Inl e \<Rightarrow> Inl e
           | Inr self' \<Rightarrow>
               (let args = (case corr_fcn_args self' of None \<Rightarrow> [] | Some d \<Rightarrow> d)
                in Inr (self'\<lparr>corr_fcn_args := Some (dict (sorted_items args))\<rparr>)))"

text \<open>\<^verbatim>\<open>getattr(self, attr)\<close> as a Python value.\<close>

definition gold_pyval :: "gold_val option \<Rightarrow> pyval" where
  "gold_pyval g = (case g of None \<Rightarrow> PNone | Some (GoldStr s) \<Rightarrow> PStr s
                   | Some (GoldList xs) \<Rightarrow> PList (map PStr xs))"

definition refs_pyval :: "refs_val option \<Rightarrow> pyval" where
  "refs_pyval r = (case r of None \<Rightarrow> PNone | Some (RefSet xs) \<Rightarrow> PSet (map PStr xs)
                   | Some (RefList xss) \<Rightarrow> PList (map (\<lambda>xs. PSet (map PStr xs)) xss))"

definition Task_dict :: "Task \<Rightarrow> (string, pyval) pydict" where
  "Task_dict self =
     [(''test_set'', PStr (test_set self)),
      (''lang'', PStr (lang self)),
      (''domain'', (case domain self of None \<Rightarrow> PNone | Some d \<Rightarrow> PStr d)),
      (''level'', PStr (level self)),
      (''human'', PBool (human self)),
      (''avg_by'', PStr (avg_by self)),
      (''corr_fcn'', PStr (corr_fcn self)),
      (''k'', PInt (k self)),
      (''gold'', gold_pyval (gold self)),
      (''refs'', refs_pyval (refs self)),
      (''close_refs'', refs_pyval (close_refs self)),
      (''use_outliers'', PBool (use_outliers self)),
      (''primary'', PBool (primary self)),
      (''pval'', PFloat (pval self)),
      (''block_size'', PInt (block_size self)),
      (''early_min'', PFloat (early_min self)),
      (''early_max'', PFloat (early_max self)),
      (''replace_nans_with_zeros'', PBool (replace_nans_with_zeros self)),
      (''perm_test'', PStr (perm_test self)),
      (''corr_fcn_args'',
         (case corr_fcn_args self of None \<Rightarrow> PNone
          | Some d \<Rightarrow> PDict (map (\<lambda>(key, v). (PStr key, v)) d)))]"

definition getattr :: "Task \<Rightarrow> string \<Rightarrow> error + pyval" where
  "getattr self attr =
     (case map_of (Task_dict self) attr of None \<Rightarrow> Inl AttributeError | Some v \<Rightarrow> Inr v)"

text \<open>\<^verbatim>\<open>StrVal\<close>: the attribute's \<^verbatim>\<open>str\<close> with the spaces removed.\<close>

definition StrVal :: "Task \<Rightarrow> string \<Rightarrow> error + string" where
  "StrVal self attr =
     (case getattr self attr of Inl e \<Rightarrow> Inl e | Inr v \<Rightarrow> Inr (remove_spaces (py_str v)))"

text \<open>The property \<^verbatim>\<open>name\<close>: the pairs \<^verbatim>\<open>attr=value\<close> of all attributes, in the order
  of \<^verbatim>\<open>Attributes()\<close>, joined by single spaces.\<close>

definition Task_name :: "Task \<Rightarrow> error + string" where
  "Task_name self =
     (case sequence_err
             (map (\<lambda>a. case StrVal self a of Inl e \<Rightarrow> Inl e | Inr v \<Rightarrow> Inr (a @ ''='' @ v))
                  Attributes) of
        Inl e \<Rightarrow> Inl e
      | Inr parts \<Rightarrow> Inr (str_join '' '' parts))"

text \<open>
  The generated \<^verbatim>\<open>__init__\<close>: keyword arguments over the defaults, then
  \<^verbatim>\<open>__post_init__\<close>. A keyword that is no field raises \<^verbatim>\<open>TypeError\<close>. The fields
  of the record are typed by the annotations, so a keyword whose value does not have the
  annotated type of its field cannot be stored: it is outside this model and is
  rejected with \<^verbatim>\<open>TypeError\<close> as well.
\<close>

definition as_strs :: "pyval list \<Rightarrow> string list option" where
  "as_strs vs = those (map (\<lambda>v. case v of PStr s \<Rightarrow> Some s | _ \<Rightarrow> None) vs)"

definition as_gold :: "pyval \<Rightarrow> gold_val option option" where
  "as_gold v =
     (case v of PNone \<Rightarrow> Some None
      | PStr s \<Rightarrow> Some (Some (GoldStr s))
      | PList vs \<Rightarrow> map_option (\<lambda>xs. Some (GoldList xs)) (as_strs vs)
      | _ \<Rightarrow> None)"

definition as_refs :: "pyval \<Rightarrow> refs_val option option" where
  "as_refs v =
     (case v of PNone \<Rightarrow> Some None
      | PSet vs \<Rightarrow> map_option (\<lambda>xs. Some (RefSet xs)) (as_strs vs)
      | PList vs \<Rightarrow>
          map_option (\<lambda>xss. Some (RefList xss))
            (those (map (\<lambda>v. case v of PSet ws \<Rightarrow> as_strs ws | _ \<Rightarrow> None) vs))
      | _ \<Rightarrow> None)"

definition as_args :: "pyval \<Rightarrow> (string, pyval) pydict option option" where
  "as_args v =
     (case v of PNone \<Rightarrow> Some None
      | PDict kvs \<Rightarrow>
          map_option Some
            (those (map (\<lambda>(key, w). case key of PStr s \<Rightarrow> Some (s, w) | _ \<Rightarrow> None) kvs))
      | _ \<Rightarrow> None)"

definition set_field :: "string \<Rightarrow> pyval \<Rightarrow> Task \<Rightarrow> error + Task" where
  "set_field attr v self =
     (if attr = ''test_set'' then
        (case v of PStr s \<Rightarrow> Inr (self\<lparr>test_set := s\<rparr>) | _ \<Rightarrow> Inl TypeError)
      else if attr = ''lang'' then
        (case v of PStr s \<Rightarrow> Inr (self\<lparr>lang := s\<rparr>) | _ \<Rightarrow> Inl TypeError)
      else if attr = ''domain'' then
        (case v of PNone \<Rightarrow> Inr (self\<lparr>domain := None\<rparr>)
         | PStr s \<Rightarrow> Inr (self\<lparr>domain := Some s\<rparr>) | _ \<Rightarrow> Inl TypeError)
      else if attr = ''level'' then
        (case v of PStr s \<Rightarrow> Inr (self\<lparr>level := s\<rparr>) | _ \<Rightarrow> Inl TypeError)
      else if attr = ''human'' then
        (case v of PBool b \<Rightarrow> Inr (self\<lparr>human := b\<rparr>) | _ \<Rightarrow> Inl TypeError)
      else if attr = ''avg_by'' then
        (case v of PStr s \<Rightarrow> Inr (self\<lparr>avg_by := s\<rparr>) | _ \<Rightarrow> Inl TypeError)
      else if attr = ''corr_fcn'' then
        (case v of PStr s \<Rightarrow> Inr (self\<lparr>corr_fcn := s\<rparr>) | _ \<Rightarrow> Inl TypeError)
      else if attr = ''k'' then
        (case v of PInt i \<Rightarrow> Inr (self\<lparr>k := i\<rparr>) | _ \<Rightarrow> Inl TypeError)
      else if attr = ''gold'' then
        (case as_gold v of Some g \<Rightarrow> Inr (self\<lparr>gold := g\<rparr>) | None \<Rightarrow> Inl TypeError)
      else if attr = ''refs'' then
        (case as_refs v of Some r \<Rightarrow> Inr (self\<lparr>refs := r\<rparr>) | None \<Rightarrow> Inl TypeError)
      else if attr = ''close_refs'' then
        (case as_refs v of Some r \<Rightarrow> Inr (self\<lparr>close_refs := r\<rparr>) | None \<Rightarrow> Inl TypeError)
      else if attr = ''use_outliers'' then
        (case v of PBool b \<Rightarrow> Inr (self\<lparr>use_outliers := b\<rparr>) | _ \<Rightarrow> Inl TypeError)
      else if attr = ''primary'' then
        (case v of PBool b \<Rightarrow> Inr (self\<lparr>primary := b\<rparr>) | _ \<Rightarrow> Inl TypeError)
      else if attr = ''pval'' then
        (case v of PFloat f \<Rightarrow> Inr (self\<lparr>pval := f\<rparr>) | _ \<Rightarrow> Inl TypeError)
      else if attr = ''block_size'' then
        (case v of PInt i \<Rightarrow> Inr (self\<lparr>block_size := i\<rparr>) | _ \<Rightarrow> Inl TypeError)
      else if attr = ''early_min'' then
        (case v of PFloat f \<Rightarrow> Inr (self\<lparr>early_min := f\<rparr>) | _ \<Rightarrow> Inl TypeError)
      else if attr = ''early_max'' then
        (case v of PFloat f \<Rightarrow> Inr (self\<lparr>early_max := f\<rparr>) | _ \<Rightarrow> Inl TypeError)
      else if attr = ''replace_nans_with_zeros'' then
        (case v of PBool b \<Rightarrow> Inr (self\<lparr>replace_nans_with_zeros := b\<rparr>) | _ \<Rightarrow> Inl TypeError)
      else if attr = ''perm_test'' then
        (case v of PStr s \<Rightarrow> Inr (self\<lparr>perm_test := s\<rparr>) | _ \<Rightarrow> Inl TypeError)
      else if attr = ''corr_fcn_args'' then
        (case as_args v of Some d \<Rightarrow> Inr (self\<lparr>corr_fcn_args := d\<rparr>) | None \<Rightarrow> Inl TypeError)
      else Inl TypeError)"

fun set_fields :: "(string \<times> pyval) list \<Rightarrow> Task \<Rightarrow> error + Task" where
  "set_fields [] self = Inr self"
| "set_fields ((attr, v) # kwargs) self =
     (case set_field attr v self of Inl e \<Rightarrow> Inl e | Inr self' \<Rightarrow> set_fields kwargs self')"

definition Task_init :: "meta_data \<Rightarrow> (string, pyval) pydict \<Rightarrow> error + Task" where
  "Task_init DATA kwargs =
     (case set_fields kwargs Task_defaults of
        Inl e \<Rightarrow> Inl e
      | Inr self \<Rightarrow> post_init DATA self)"

section \<open>TaskResults\<close>

text \<open>
  The results of one task: the task's name, its threshold (the integer 0 of an empty
  result, or the task's float), the dictionary from metric name to correlation and
  cluster rank, in descending order of correlation, and the matrix of pairwise
  p-values. Correlations and p-values are floats that this module only stores.
\<close>

record TaskResults =
  name :: string
  pval :: pyval
  corr_ranks :: "(string, pyfloat \<times> int) pydict"
  matrix :: "pyfloat list list"

text \<open>The constructor. A dataclass instance is always true, so \<^verbatim>\<open>not task\<close> holds
  for \<^verbatim>\<open>None\<close> only; unpacking \<^verbatim>\<open>None\<close> into two names raises \<^verbatim>\<open>TypeError\<close>.\<close>

definition TaskResults_init ::
  "Task option \<Rightarrow> ((string, pyfloat \<times> int) pydict \<times> pyfloat list list) option \<Rightarrow>
   error + TaskResults" where
  "TaskResults_init task compare_metrics_results =
     (case task of
        None \<Rightarrow> Inr \<lparr>name = [], pval = PInt 0, corr_ranks = [], matrix = []\<rparr>
      | Some t \<Rightarrow>
         (case Task_name t of
            Inl e \<Rightarrow> Inl e
          | Inr n \<Rightarrow>
             (case compare_metrics_results of
                None \<Rightarrow> Inl TypeError
              | Some (cr, m) \<Rightarrow>
                  Inr \<lparr>name = n, pval = PFloat (Task.pval t), corr_ranks = cr, matrix = m\<rparr>)))"

text \<open>\<^verbatim>\<open>attr_vals\<close>: the name is split at whitespace, each piece at \<^verbatim>\<open>=\<close>; \<^verbatim>\<open>dict\<close>
  raises \<^verbatim>\<open>ValueError\<close> for a piece that does not split into exactly two parts.\<close>

definition attr_vals :: "TaskResults \<Rightarrow> error + (string, string) pydict" where
  "attr_vals self =
     (case sequence_err
             (map (\<lambda>av. case str_split av CHR ''='' of
                           [a, v] \<Rightarrow> Inr (a, v)
                         | _ \<Rightarrow> Inl ValueError)
                  (str_split_ws (name self))) of
        Inl e \<Rightarrow> Inl e
      | Inr kvs \<Rightarrow> Inr (dict kvs))"

text \<open>\<^verbatim>\<open>metrics\<close>: the keys of \<^verbatim>\<open>corr_ranks\<close>, in their order.\<close>

definition metrics :: "TaskResults \<Rightarrow> string list" where
  "metrics self = map fst (corr_ranks self)"

text \<open>\<^verbatim>\<open>Corr\<close> and \<^verbatim>\<open>Rank\<close> of a metric given by its name.\<close>

definition Corr :: "TaskResults \<Rightarrow> string \<Rightarrow> error + pyfloat" where
  "Corr self metric =
     (case dict_get (corr_ranks self) metric of Inl e \<Rightarrow> Inl e | Inr cr \<Rightarrow> Inr (fst cr))"

definition Rank :: "TaskResults \<Rightarrow> string \<Rightarrow> error + int" where
  "Rank self metric =
     (case dict_get (corr_ranks self) metric of Inl e \<Rightarrow> Inl e | Inr cr \<Rightarrow> Inr (snd cr))"

section \<open>TaskSet\<close>

text \<open>The handles of the evaluation-set store belong to another module.\<close>

typedecl EvalSet

record TaskSet =
  tasks :: "Task list"
  eval_set_dict :: "(string \<times> string, EvalSet) pydict"

text \<open>
  The constructor: nothing for an absent or empty \<^verbatim>\<open>attr_combs\<close>; else one task for
  each tuple of \<^verbatim>\<open>itertools.product\<close> over the value lists, in its order (the last
  list varies fastest). \<^verbatim>\<open>Task(**comb, **attrs)\<close> raises \<^verbatim>\<open>TypeError\<close> when a keyword
  is given twice, and the first task that fails to construct ends the loop with its
  error.
\<close>

definition make_task ::
  "meta_data \<Rightarrow> string list \<Rightarrow> (string, pyval) pydict \<Rightarrow> pyval list \<Rightarrow> error + Task" where
  "make_task DATA keys attrs vals =
     (let comb = dict (zip keys vals)
      in if \<exists>key \<in> set (map fst comb). key \<in> set (map fst attrs) then Inl TypeError
         else Task_init DATA (comb @ attrs))"

definition TaskSet_init ::
  "meta_data \<Rightarrow> (string, pyval list) pydict option \<Rightarrow> (string, pyval) pydict \<Rightarrow>
   error + TaskSet" where
  "TaskSet_init DATA attr_combs attrs =
     (case attr_combs of
        None \<Rightarrow> Inr \<lparr>tasks = [], eval_set_dict = []\<rparr>
      | Some combs \<Rightarrow>
         if combs = [] then Inr \<lparr>tasks = [], eval_set_dict = []\<rparr>
         else
           (case sequence_err
                   (map (make_task DATA (map fst combs) attrs)
                        (product_lists (map snd combs))) of
              Inl e \<Rightarrow> Inl e
            | Inr ts \<Rightarrow> Inr \<lparr>tasks = ts, eval_set_dict = []\<rparr>))"

section \<open>TaskSetResults\<close>

text \<open>
  Weights and average ranks are Python floats. They are modelled as rationals, so the
  arithmetic of this section is exact: what the claims say up to rounding is stated
  here as an equality.
\<close>

record TaskSetResults =
  results :: "TaskResults list"

definition len :: "TaskSetResults \<Rightarrow> nat" where
  "len self = length (results self)"

definition Append :: "TaskSetResults \<Rightarrow> TaskResults \<Rightarrow> TaskSetResults" where
  "Append self result = self\<lparr>results := results self @ [result]\<rparr>"

text \<open>Division of a float by a count: \<^verbatim>\<open>ZeroDivisionError\<close> for the count 0.\<close>

definition py_div :: "rat \<Rightarrow> nat \<Rightarrow> error + rat" where
  "py_div x n = (if n = 0 then Inl ZeroDivisionError else Inr (x / of_nat n))"

text \<open>\<^verbatim>\<open>sum(xs)\<close>: from 0, left to right.\<close>

definition py_sum :: "rat list \<Rightarrow> rat" where
  "py_sum xs = foldl (+) 0 xs"

text \<open>\<^verbatim>\<open>SplitByAttr\<close>: the loop over the results, with the dictionary of subsets as
  its state.\<close>

fun split_loop ::
  "string \<Rightarrow> TaskResults list \<Rightarrow> (string, TaskSetResults) pydict \<Rightarrow>
   error + (string, TaskSetResults) pydict" where
  "split_loop attr [] subsets = Inr subsets"
| "split_loop attr (result # rest) subsets =
     (case attr_vals result of
        Inl e \<Rightarrow> Inl e
      | Inr d \<Rightarrow>
         (case dict_get d attr of
            Inl e \<Rightarrow> Inl e
          | Inr val \<Rightarrow>
             (let subsets1 = (if val \<notin> set (map fst subsets)
                              then dict_set val \<lparr>results = []\<rparr> subsets else subsets)
              in case dict_get subsets1 val of
                   Inl e \<Rightarrow> Inl e
                 | Inr sub \<Rightarrow>
                     split_loop attr rest (dict_set val (Append sub result) subsets1))))"

definition SplitByAttr ::
  "TaskSetResults \<Rightarrow> string \<Rightarrow> error + (string, TaskSetResults) pydict" where
  "SplitByAttr self attr = split_loop attr (results self) []"

text \<open>\<^verbatim>\<open>AssignWeights\<close>. The inner loop stores the weights of one subset under the
  names of its results; the outer loop runs over the subsets.\<close>

definition store_weights ::
  "TaskSetResults \<Rightarrow> rat list \<Rightarrow> (string, rat) pydict \<Rightarrow> (string, rat) pydict" where
  "store_weights sub subweights weights =
     fold (\<lambda>(r, w) d. dict_set (name r) w d) (zip (results sub) subweights) weights"

fun AssignWeights :: "TaskSetResults \<Rightarrow> string list \<Rightarrow> rat \<Rightarrow> error + rat list" where
  "AssignWeights self [] total_wt =
     (case py_div total_wt (length (results self)) of
        Inl e \<Rightarrow> Inl e
      | Inr w \<Rightarrow> Inr (replicate (length (results self)) w))"
| "AssignWeights self (attr # attrs) total_wt =
     (let weights = dict (map (\<lambda>r. (name r, 0)) (results self))
      in case SplitByAttr self attr of
           Inl e \<Rightarrow> Inl e
         | Inr split \<Rightarrow>
            (let subsets = map snd split
             in case fold (\<lambda>sub acc.
                        case acc of
                          Inl e \<Rightarrow> Inl e
                        | Inr ws \<Rightarrow>
                           (case py_div total_wt (length subsets) of
                              Inl e \<Rightarrow> Inl e
                            | Inr wt \<Rightarrow>
                               (case AssignWeights sub attrs wt of
                                  Inl e \<Rightarrow> Inl e
                                | Inr subweights \<Rightarrow> Inr (store_weights sub subweights ws))))
                      subsets (Inr weights) of
                  Inl e \<Rightarrow> Inl e
                | Inr ws \<Rightarrow> Inr (map snd ws)))"

text \<open>\<^verbatim>\<open>AverageRanks\<close>. The two nested loops collect, for each metric, the weighted
  ranks of the results that have it.\<close>

fun ranks_of_result ::
  "TaskResults \<Rightarrow> rat \<Rightarrow> string list \<Rightarrow> (string, rat list) pydict \<Rightarrow>
   error + (string, rat list) pydict" where
  "ranks_of_result res weight [] ranks = Inr ranks"
| "ranks_of_result res weight (metric # ms) ranks =
     (let ranks1 = (if metric \<notin> set (map fst ranks) then dict_set metric [] ranks else ranks)
      in case dict_get ranks1 metric of
           Inl e \<Rightarrow> Inl e
         | Inr xs \<Rightarrow>
            (case Rank res metric of
               Inl e \<Rightarrow> Inl e
             | Inr r \<Rightarrow>
                 ranks_of_result res weight ms
                   (dict_set metric (xs @ [of_int r * weight]) ranks1)))"

fun ranks_loop ::
  "(TaskResults \<times> rat) list \<Rightarrow> (string, rat list) pydict \<Rightarrow>
   error + (string, rat list) pydict" where
  "ranks_loop [] ranks = Inr ranks"
| "ranks_loop ((res, weight) # rest) ranks =
     (case ranks_of_result res weight (metrics res) ranks of
        Inl e \<Rightarrow> Inl e
      | Inr ranks' \<Rightarrow> ranks_loop rest ranks')"

definition AverageRanks ::
  "TaskSetResults \<Rightarrow> rat list option \<Rightarrow> error + (string, rat) pydict" where
  "AverageRanks self weights =
     (case (case weights of
              None \<Rightarrow> (case py_div 1 (len self) of
                         Inl e \<Rightarrow> Inl e | Inr w \<Rightarrow> Inr (replicate (len self) w))
            | Some ws \<Rightarrow> Inr ws) of
        Inl e \<Rightarrow> Inl e
      | Inr ws \<Rightarrow>
         (case ranks_loop (zip (results self) ws) [] of
            Inl e \<Rightarrow> Inl e
          | Inr ranks \<Rightarrow>
              Inr (dict (sort_key snd
                     (map (\<lambda>(m, xs). (m, py_sum xs))
                        (filter (\<lambda>(m, xs). length xs = len self) ranks))))))"

section \<open>Concrete inputs\<close>

text \<open>A table with one test set and two language pairs, and tasks and results over it,
  for the statements that are evaluated at a concrete input.\<close>

definition example_DATA :: meta_data where
  "example_DATA =
     [''wmt22'' \<mapsto>
        [''en-de'' \<mapsto> \<lparr>std_gold = [''sys'' \<mapsto> ''mqm'', ''seg'' \<mapsto> ''mqm''], std_ref = ''refA''\<rparr>,
         ''de-en'' \<mapsto> \<lparr>std_gold = [''sys'' \<mapsto> ''wmt-z'', ''seg'' \<mapsto> ''wmt-raw''], std_ref = ''refB''\<rparr>]]"

text \<open>Three results over two language pairs and two levels.\<close>

definition example_r1 :: TaskResults where
  "example_r1 =
     \<lparr>name = ''lang=en-de level=sys'', pval = PInt 0,
      corr_ranks = [(''m1'', (FloatRepr ''0.9'', 1)), (''m2'', (FloatRepr ''0.8'', 2))],
      matrix = []\<rparr>"

definition example_r2 :: TaskResults where
  "example_r2 =
     \<lparr>name = ''lang=de-en level=sys'', pval = PInt 0,
      corr_ranks = [(''m2'', (FloatRepr ''0.9'', 1)), (''m1'', (FloatRepr ''0.8'', 1)),
                    (''m3'', (FloatRepr ''0.7'', 2))],
      matrix = []\<rparr>"

definition example_r3 :: TaskResults where
  "example_r3 =
     \<lparr>name = ''lang=en-de level=seg'', pval = PInt 0,
      corr_ranks = [(''m2'', (FloatRepr ''0.9'', 1)), (''m1'', (FloatRepr ''0.8'', 3))],
      matrix = []\<rparr>"

definition example_results :: "TaskResults list" where
  "example_results = [example_r1, example_r2, example_r3]"

text \<open>The default task as \<^verbatim>\<open>__post_init__\<close> leaves it over \<open>example_DATA\<close>, and the
  same task with a tab in its domain.\<close>

definition example_task :: Task where
  "example_task =
     Task_defaults\<lparr>gold := Some (GoldStr ''mqm''), refs := Some (RefSet [''refA'']),
                   close_refs := Some (RefSet []), corr_fcn_args := Some []\<rparr>"

definition example_tab_task :: Task where
  "example_tab_task = example_task\<lparr>domain := Some [CHR ''a'', CHR 0x09, CHR ''b'']\<rparr>"


section \<open>Notions of the statements\<close>

text \<open>The rank that a result gives to one of its metrics (0 stands for a metric that the
  result does not have, where \<^verbatim>\<open>Rank\<close> raises).\<close>

definition rank_of :: "TaskResults \<Rightarrow> string \<Rightarrow> int" where
  "rank_of r m = (case Rank r m of Inl _ \<Rightarrow> 0 | Inr i \<Rightarrow> i)"

text \<open>The list stored under a key, empty when the key is absent.\<close>

definition lookup_list :: "('a, 'b list) pydict \<Rightarrow> 'a \<Rightarrow> 'b list" where
  "lookup_list d a = (case map_of d a of None \<Rightarrow> [] | Some xs \<Rightarrow> xs)"

text \<open>The weighted sum of the ranks of a metric across all results, as the
  specification words it.\<close>

definition spec_weighted_rank :: "TaskResults list \<Rightarrow> rat list \<Rightarrow> string \<Rightarrow> rat" where
  "spec_weighted_rank rs ws m = sum_list (map (\<lambda>(r, w). of_int (rank_of r m) * w) (zip rs ws))"

text \<open>The weights that \<^verbatim>\<open>AverageRanks\<close> uses: the ones supplied, or \<open>1 / n\<close> for each
  of the \<open>n\<close> results.\<close>

definition spec_weights :: "TaskSetResults \<Rightarrow> rat list option \<Rightarrow> rat list" where
  "spec_weights s weights =
     (case weights of
        None \<Rightarrow> replicate (length (results s)) (1 / of_nat (length (results s)))
      | Some ws \<Rightarrow> ws)"

text \<open>A text without \<^verbatim>\<open>=\<close> and without whitespace.\<close>

definition clean :: "string \<Rightarrow> bool" where
  "clean s = (CHR ''='' \<notin> set s \<and> (\<forall>c\<in>set s. \<not> py_isspace c))"

text \<open>The form of a name: \<^verbatim>\<open>attr=value\<close> pairs joined by single spaces.\<close>

definition canonical_name :: "(string \<times> string) list \<Rightarrow> string" where
  "canonical_name avs = str_join '' '' (map (\<lambda>(a, v). a @ ''='' @ v) avs)"

text \<open>The text of \<^verbatim>\<open>StrVal\<close> (empty for a name that is no attribute, where
  \<^verbatim>\<open>StrVal\<close> raises).\<close>

definition str_val :: "Task \<Rightarrow> string \<Rightarrow> string" where
  "str_val t a = (case StrVal t a of Inl _ \<Rightarrow> [] | Inr v \<Rightarrow> v)"


text \<open>The text of an attribute as \<^verbatim>\<open>SplitByAttr\<close> recovers it from the name of a result
  (\<open>None\<close> where \<^verbatim>\<open>attr_vals\<close> or the lookup raises).\<close>

definition attr_val :: "string \<Rightarrow> TaskResults \<Rightarrow> string option" where
  "attr_val a r =
     (case attr_vals r of
        Inl _ \<Rightarrow> None
      | Inr d \<Rightarrow> (case dict_get d a of Inl _ \<Rightarrow> None | Inr v \<Rightarrow> Some v))"

text \<open>The results stored under a key, none when the key is absent.\<close>

definition lookup_results :: "(string, TaskSetResults) pydict \<Rightarrow> string \<Rightarrow> TaskResults list" where
  "lookup_results d v = (case map_of d v of None \<Rightarrow> [] | Some g \<Rightarrow> results g)"

text \<open>
  The weight of one result as the specification describes \<^verbatim>\<open>AssignWeights\<close>: the budget is
  divided evenly among the values that the first attribute takes in the set; the share
  of the result's own value goes to the results with that value, for the remaining
  attributes; with no attribute left, every result gets an equal part.
\<close>

fun spec_weight :: "TaskResults list \<Rightarrow> string list \<Rightarrow> rat \<Rightarrow> TaskResults \<Rightarrow> rat" where
  "spec_weight rs [] W r = W / of_nat (length rs)"
| "spec_weight rs (a # as) W r =
     spec_weight (filter (\<lambda>x. attr_val a x = attr_val a r) rs) as
       (W / of_nat (card (attr_val a ` set rs))) r"

section \<open>Verification\<close>

subsection \<open>Splitting strings\<close>

lemma length_split_aux:
  "length (split_aux sep cur s) = Suc (length (filter (\<lambda>c. c = sep) s))"
  by (induction s arbitrary: cur) auto

lemma split_aux_no_sep: "sep \<notin> set s \<Longrightarrow> split_aux sep cur s = [cur @ s]"
  by (induction s arbitrary: cur) auto

lemma str_split_no_sep: "sep \<notin> set s \<Longrightarrow> str_split s sep = [s]"
  by (simp add: str_split_def split_aux_no_sep)

lemma length_str_split_sep: "sep \<in> set s \<Longrightarrow> length (str_split s sep) \<noteq> 1"
proof -
  assume "sep \<in> set s"
  then have "filter (\<lambda>c. c = sep) s \<noteq> []"
    by (simp add: filter_empty_conv)
  then show ?thesis
    by (simp add: str_split_def length_split_aux)
qed

subsection \<open>Validation at construction\<close>

text \<open>
  Claim C7. In standard mode (\<^verbatim>\<open>corr_fcn\<close> other than \<^verbatim>\<open>'accuracy'\<close>), a language
  field that holds a comma, that is a comma-separated list of more than one language
  pair, makes the construction fail: \<^verbatim>\<open>__post_init__\<close> raises \<^verbatim>\<open>AssertionError\<close>,
  whatever the table and the other fields are.
\<close>

theorem standard_mode_rejects_language_list:
  assumes "corr_fcn t \<noteq> ''accuracy''" and "CHR '','' \<in> set (lang t)"
  shows "post_init DATA t = Inl AssertionError"
proof (cases "DATA (test_set t)")
  case None
  then show ?thesis by (simp add: post_init_def)
next
  case (Some langs)
  have "post_init_standard DATA langs (str_split (lang t) CHR '','') t = Inl AssertionError"
    using length_str_split_sep [OF assms(2)] by (simp add: post_init_standard_def)
  with Some assms(1) show ?thesis
    by (simp add: post_init_def)
qed

theorem standard_mode_rejects_language_list_witness:
  "post_init example_DATA (Task_defaults\<lparr>lang := ''en-de,de-en''\<rparr>) = Inl AssertionError"
  using standard_mode_rejects_language_list
          [of "Task_defaults\<lparr>lang := ''en-de,de-en''\<rparr>" example_DATA]
  by (simp add: Task_defaults_def)

text \<open>
  Claim C2, as amended. In accuracy mode (\<^verbatim>\<open>corr_fcn = 'accuracy'\<close>) the construction
  fails with \<^verbatim>\<open>AssertionError\<close> when the level is not \<^verbatim>\<open>'sys'\<close>. A language field
  that names exactly one language pair is not an error: when that pair is in the test
  set's table, the level is \<^verbatim>\<open>'sys'\<close>, the pair has a standard gold for that level and
  gold, references and close references are left unset, the construction succeeds and
  fills them in with lists of length one.
\<close>

theorem accuracy_mode_validation:
  "(corr_fcn t = ''accuracy'' \<and> level t \<noteq> ''sys'' \<longrightarrow> post_init DATA t = Inl AssertionError) \<and>
   (corr_fcn t = ''accuracy'' \<and> level t = ''sys'' \<and> CHR '','' \<notin> set (lang t) \<and>
    DATA (test_set t) = Some langs \<and> langs (lang t) = Some info \<and>
    std_gold info ''sys'' = Some g \<and>
    gold t = None \<and> refs t = None \<and> close_refs t = None \<longrightarrow>
      post_init DATA t =
        Inr (t\<lparr>gold := Some (GoldList [g]), refs := Some (RefList [[std_ref info]]),
               close_refs := Some (RefList [[]]),
               corr_fcn_args :=
                 Some (dict (sorted_items (case corr_fcn_args t of None \<Rightarrow> [] | Some d \<Rightarrow> d)))\<rparr>))"
proof (intro conjI impI)
  assume a: "corr_fcn t = ''accuracy'' \<and> level t \<noteq> ''sys''"
  show "post_init DATA t = Inl AssertionError"
  proof (cases "DATA (test_set t)")
    case None
    then show ?thesis by (simp add: post_init_def)
  next
    case (Some ls)
    with a show ?thesis
      by (simp add: post_init_def post_init_accuracy_def CORRELATION_FUNCTIONS_def)
  qed
next
  assume a: "corr_fcn t = ''accuracy'' \<and> level t = ''sys'' \<and> CHR '','' \<notin> set (lang t) \<and>
    DATA (test_set t) = Some langs \<and> langs (lang t) = Some info \<and>
    std_gold info ''sys'' = Some g \<and>
    gold t = None \<and> refs t = None \<and> close_refs t = None"
  then have s: "str_split (lang t) CHR '','' = [lang t]"
    by (simp add: str_split_no_sep)
  have "post_init_accuracy DATA langs [lang t] t =
      Inr (t\<lparr>gold := Some (GoldList [g]), refs := Some (RefList [[std_ref info]]),
             close_refs := Some (RefList [[]])\<rparr>)"
    using a by (simp add: post_init_accuracy_def StdGold_def StdRefs_def len_gold_def len_refs_def)
  with a s show "post_init DATA t =
        Inr (t\<lparr>gold := Some (GoldList [g]), refs := Some (RefList [[std_ref info]]),
               close_refs := Some (RefList [[]]),
               corr_fcn_args :=
                 Some (dict (sorted_items (case corr_fcn_args t of None \<Rightarrow> [] | Some d \<Rightarrow> d)))\<rparr>)"
    by (simp add: post_init_def CORRELATION_FUNCTIONS_def)
qed

text \<open>The claim as it was stated fails on the default task switched to accuracy mode:
  its language field \<^verbatim>\<open>'en-de'\<close> names exactly one language pair, and the construction
  succeeds.\<close>

theorem accuracy_single_language_counterexample:
  "post_init example_DATA (Task_defaults\<lparr>corr_fcn := ''accuracy''\<rparr>) =
     Inr (Task_defaults\<lparr>corr_fcn := ''accuracy'', gold := Some (GoldList [''mqm'']),
            refs := Some (RefList [[''refA'']]), close_refs := Some (RefList [[]]),
            corr_fcn_args := Some []\<rparr>)"
  by (simp add: post_init_def post_init_accuracy_def CORRELATION_FUNCTIONS_def
      Task_defaults_def example_DATA_def str_split_def StdGold_def StdRefs_def
      len_gold_def len_refs_def dict_def sorted_items_def)

theorem accuracy_mode_validation_witness:
  "post_init example_DATA (Task_defaults\<lparr>corr_fcn := ''accuracy'', level := ''seg''\<rparr>) =
     Inl AssertionError \<and>
   post_init example_DATA (Task_defaults\<lparr>corr_fcn := ''accuracy'', lang := ''de-en''\<rparr>) =
     Inr (Task_defaults\<lparr>corr_fcn := ''accuracy'', lang := ''de-en'',
            gold := Some (GoldList [''wmt-z'']),
            refs := Some (RefList [[''refB'']]), close_refs := Some (RefList [[]]),
            corr_fcn_args := Some []\<rparr>)"
  using accuracy_mode_validation
     [of "Task_defaults\<lparr>corr_fcn := ''accuracy'', level := ''seg''\<rparr>" example_DATA]
    accuracy_mode_validation
     [of "Task_defaults\<lparr>corr_fcn := ''accuracy'', lang := ''de-en''\<rparr>" example_DATA
         "[''en-de'' \<mapsto> \<lparr>std_gold = [''sys'' \<mapsto> ''mqm'', ''seg'' \<mapsto> ''mqm''], std_ref = ''refA''\<rparr>,
         ''de-en'' \<mapsto> \<lparr>std_gold = [''sys'' \<mapsto> ''wmt-z'', ''seg'' \<mapsto> ''wmt-raw''], std_ref = ''refB''\<rparr>]"
         "\<lparr>std_gold = [''sys'' \<mapsto> ''wmt-z'', ''seg'' \<mapsto> ''wmt-raw''], std_ref = ''refB''\<rparr>"
         "''wmt-z''"]
  by (simp add: Task_defaults_def example_DATA_def dict_def sorted_items_def)

subsection \<open>Dictionaries\<close>

lemma dict_set_keys:
  "map fst (dict_set a v d) = (if a \<in> set (map fst d) then map fst d else map fst d @ [a])"
  by (induction d) (auto, force)

lemma dict_set_key_set: "fst ` set (dict_set a v d) = insert a (fst ` set d)"
  using arg_cong [OF dict_set_keys, of set a v d] by auto

lemma map_of_dict_set: "map_of (dict_set a v d) = (map_of d)(a \<mapsto> v)"
  by (induction d) (auto simp: fun_eq_iff)

lemma dict_set_fresh: "a \<notin> set (map fst d) \<Longrightarrow> dict_set a v d = d @ [(a, v)]"
  by (induction d) auto

lemma dict_fold_distinct:
  "distinct (map fst (acc @ kvs)) \<Longrightarrow> fold (\<lambda>(a, v) d. dict_set a v d) kvs acc = acc @ kvs"
proof (induction kvs arbitrary: acc)
  case Nil
  then show ?case by simp
next
  case (Cons p kvs)
  obtain a v where p: "p = (a, v)" by (cases p)
  from Cons.prems p have fresh: "a \<notin> set (map fst acc)" by auto
  from Cons.prems p have "distinct (map fst ((acc @ [(a, v)]) @ kvs))" by simp
  from Cons.IH [OF this] show ?case
    using p fresh by (simp add: dict_set_fresh)
qed

lemma dict_distinct: "distinct (map fst kvs) \<Longrightarrow> dict kvs = kvs"
  using dict_fold_distinct [of "[]" kvs] by (simp add: dict_def)

lemma dict_get_Inr: "map_of d a = Some v \<Longrightarrow> dict_get d a = Inr v"
  by (simp add: dict_get_def)

lemma map_of_absent: "a \<notin> set (map fst d) \<Longrightarrow> map_of d a = None"
  by (simp add: map_of_eq_None_iff)

lemma dict_get_Inl: "a \<notin> set (map fst d) \<Longrightarrow> dict_get d a = Inl KeyError"
  by (simp add: dict_get_def map_of_absent)

lemma lookup_list_absent: "a \<notin> set (map fst d) \<Longrightarrow> lookup_list d a = []"
  by (simp add: lookup_list_def map_of_absent)

subsection \<open>The loops of AverageRanks\<close>

lemma Rank_metric: "m \<in> set (metrics r) \<Longrightarrow> Rank r m = Inr (rank_of r m)"
proof -
  assume "m \<in> set (metrics r)"
  then obtain cr where "map_of (corr_ranks r) m = Some cr"
    by (metis metrics_def map_of_eq_None_iff not_Some_eq set_map)
  then show ?thesis
    by (simp add: Rank_def rank_of_def dict_get_def)
qed

lemma lookup_list_dict_set:
  "lookup_list (dict_set a v d) b = (if b = a then v else lookup_list d b)"
  by (simp add: lookup_list_def map_of_dict_set)

lemma ranks_of_result_char:
  assumes "distinct ms" and "set ms \<subseteq> set (metrics res)"
  shows "\<exists>ranks'. ranks_of_result res w ms ranks = Inr ranks' \<and>
           map fst ranks' = map fst ranks @ filter (\<lambda>m. m \<notin> set (map fst ranks)) ms \<and>
           (\<forall>m. lookup_list ranks' m =
                  lookup_list ranks m @ (if m \<in> set ms then [of_int (rank_of res m) * w] else []))"
  using assms
proof (induction ms arbitrary: ranks)
  case Nil
  then show ?case by simp
next
  case (Cons metric ms)
  define ranks1 where
    "ranks1 = (if metric \<notin> set (map fst ranks) then dict_set metric [] ranks else ranks)"
  define ranks2 where
    "ranks2 = dict_set metric (lookup_list ranks metric @ [of_int (rank_of res metric) * w]) ranks1"
  have keys1: "map fst ranks1 =
      map fst ranks @ (if metric \<in> set (map fst ranks) then [] else [metric])"
    by (simp add: ranks1_def dict_set_keys)
  have look1: "lookup_list ranks1 m = lookup_list ranks m" for m
    using lookup_list_absent [of metric ranks]
    by (simp add: ranks1_def lookup_list_dict_set)
  have in1: "metric \<in> set (map fst ranks1)"
    by (simp add: keys1)
  then obtain xs where xs: "map_of ranks1 metric = Some xs"
    by (metis map_of_eq_None_iff not_Some_eq set_map)
  then have xs_eq: "xs = lookup_list ranks metric"
    using look1 [of metric] by (simp add: lookup_list_def)
  have get1: "dict_get ranks1 metric = Inr (lookup_list ranks metric)"
    using xs xs_eq by (simp add: dict_get_def)
  have rk: "Rank res metric = Inr (rank_of res metric)"
    using Cons.prems by (simp add: Rank_metric)
  have step: "ranks_of_result res w (metric # ms) ranks = ranks_of_result res w ms ranks2"
    using get1 rk by (simp add: ranks1_def ranks2_def Let_def)
  have keys2: "map fst ranks2 = map fst ranks1"
    using in1 by (simp add: ranks2_def dict_set_keys)
  from Cons.prems have "distinct ms" "set ms \<subseteq> set (metrics res)" by auto
  from Cons.IH [OF this] obtain ranks' where
    r: "ranks_of_result res w ms ranks2 = Inr ranks'"
    and ks: "map fst ranks' = map fst ranks2 @ filter (\<lambda>m. m \<notin> set (map fst ranks2)) ms"
    and lk: "\<And>m. lookup_list ranks' m =
                lookup_list ranks2 m @ (if m \<in> set ms then [of_int (rank_of res m) * w] else [])"
    by blast
  have notin: "metric \<notin> set ms" using Cons.prems by simp
  have set2: "set (map fst ranks2) = insert metric (set (map fst ranks))"
    unfolding keys2 keys1 by auto
  have filt: "filter (\<lambda>m. m \<notin> set (map fst ranks2)) ms = filter (\<lambda>m. m \<notin> set (map fst ranks)) ms"
    unfolding set2 using notin by (intro filter_cong) auto
  have "map fst ranks' = map fst ranks2 @ filter (\<lambda>m. m \<notin> set (map fst ranks)) ms"
    using ks filt by simp
  then have "map fst ranks' = map fst ranks1 @ filter (\<lambda>m. m \<notin> set (map fst ranks)) ms"
    using keys2 by simp
  then have "map fst ranks' = map fst ranks @ filter (\<lambda>m. m \<notin> set (map fst ranks)) (metric # ms)"
    by (simp add: keys1)
  moreover have "lookup_list ranks' m =
      lookup_list ranks m @ (if m \<in> set (metric # ms) then [of_int (rank_of res m) * w] else [])" for m
    using notin by (auto simp: lk ranks2_def lookup_list_dict_set look1)
  ultimately show ?case
    using step r by simp
qed

lemma ranks_loop_char:
  assumes "\<forall>p \<in> set zs. distinct (metrics (fst p))"
  shows "\<exists>ranks'. ranks_loop zs ranks = Inr ranks' \<and>
           (distinct (map fst ranks) \<longrightarrow> distinct (map fst ranks')) \<and>
           set (map fst ranks') = set (map fst ranks) \<union> (\<Union>p \<in> set zs. set (metrics (fst p))) \<and>
           (\<forall>m. lookup_list ranks' m =
                  lookup_list ranks m @
                  concat (map (\<lambda>p. if m \<in> set (metrics (fst p))
                                    then [of_int (rank_of (fst p) m) * snd p] else []) zs))"
  using assms
proof (induction zs arbitrary: ranks)
  case Nil
  then show ?case by simp
next
  case (Cons p zs)
  obtain res w where p: "p = (res, w)" by (cases p)
  from Cons.prems p have d: "distinct (metrics res)" by simp
  from ranks_of_result_char [OF d subset_refl] obtain ranks1 where
    r1: "ranks_of_result res w (metrics res) ranks = Inr ranks1"
    and k1: "map fst ranks1 = map fst ranks @ filter (\<lambda>m. m \<notin> set (map fst ranks)) (metrics res)"
    and l1: "\<And>m. lookup_list ranks1 m =
              lookup_list ranks m @ (if m \<in> set (metrics res) then [of_int (rank_of res m) * w] else [])"
    by blast
  from Cons.prems have "\<forall>p \<in> set zs. distinct (metrics (fst p))" by simp
  from Cons.IH [OF this] obtain ranks' where
    r: "ranks_loop zs ranks1 = Inr ranks'"
    and dk: "distinct (map fst ranks1) \<longrightarrow> distinct (map fst ranks')"
    and ks: "set (map fst ranks') = set (map fst ranks1) \<union> (\<Union>p \<in> set zs. set (metrics (fst p)))"
    and lk: "\<And>m. lookup_list ranks' m = lookup_list ranks1 m @
                  concat (map (\<lambda>p. if m \<in> set (metrics (fst p))
                                    then [of_int (rank_of (fst p) m) * snd p] else []) zs)"
    by blast
  have d1: "distinct (map fst ranks) \<longrightarrow> distinct (map fst ranks1)"
    using d by (auto simp: k1)
  have s1: "set (map fst ranks1) = set (map fst ranks) \<union> set (metrics res)"
    by (auto simp: k1)
  have step: "ranks_loop (p # zs) ranks = Inr ranks'"
    using r1 r p by simp
  have c1: "distinct (map fst ranks) \<longrightarrow> distinct (map fst ranks')"
    using dk d1 by blast
  have c2: "set (map fst ranks') =
      set (map fst ranks) \<union> (\<Union>p \<in> set (p # zs). set (metrics (fst p)))"
    unfolding ks s1 using p by auto
  have c3: "lookup_list ranks' m = lookup_list ranks m @
      concat (map (\<lambda>p. if m \<in> set (metrics (fst p))
                        then [of_int (rank_of (fst p) m) * snd p] else []) (p # zs))" for m
    unfolding lk l1 using p by simp
  show ?case
    using step c1 c2 c3 by blast
qed

subsection \<open>Uniform weights\<close>

lemma ranks_of_result_total:
  "set ms \<subseteq> set (metrics res) \<Longrightarrow> \<exists>ranks'. ranks_of_result res w ms ranks = Inr ranks'"
proof (induction ms arbitrary: ranks)
  case Nil
  then show ?case by simp
next
  case (Cons metric ms)
  define ranks1 where
    "ranks1 = (if metric \<notin> set (map fst ranks) then dict_set metric [] ranks else ranks)"
  have "metric \<in> set (map fst ranks1)"
    by (simp add: ranks1_def dict_set_key_set)
  then obtain xs where "map_of ranks1 metric = Some xs"
    by (metis map_of_eq_None_iff not_Some_eq set_map)
  then have get1: "dict_get ranks1 metric = Inr xs"
    by (simp add: dict_get_def)
  have rk: "Rank res metric = Inr (rank_of res metric)"
    using Cons.prems by (simp add: Rank_metric)
  have "ranks_of_result res w (metric # ms) ranks =
      ranks_of_result res w ms (dict_set metric (xs @ [of_int (rank_of res metric) * w]) ranks1)"
    using get1 rk by (simp add: ranks1_def Let_def)
  moreover from Cons.prems have "set ms \<subseteq> set (metrics res)" by simp
  ultimately show ?case
    using Cons.IH by simp
qed

lemma ranks_loop_total: "\<exists>ranks'. ranks_loop zs ranks = Inr ranks'"
proof (induction zs arbitrary: ranks)
  case Nil
  then show ?case by simp
next
  case (Cons p zs)
  obtain res w where p: "p = (res, w)" by (cases p)
  obtain ranks1 where "ranks_of_result res w (metrics res) ranks = Inr ranks1"
    using ranks_of_result_total [OF subset_refl] by blast
  then show ?case
    using Cons.IH [of ranks1] p by simp
qed

lemma AverageRanks_Some_total: "\<exists>avg. AverageRanks s (Some ws) = Inr avg"
proof -
  obtain ranks where "ranks_loop (zip (results s) ws) [] = Inr ranks"
    using ranks_loop_total by blast
  then show ?thesis
    by (simp add: AverageRanks_def)
qed

lemma AverageRanks_None:
  "results s \<noteq> [] \<Longrightarrow>
   AverageRanks s None =
     AverageRanks s (Some (replicate (length (results s)) (1 / of_nat (length (results s)))))"
  by (simp add: AverageRanks_def py_div_def len_def)

text \<open>
  Claim C10. On a set of zero results, \<^verbatim>\<open>AssignWeights\<close> with an empty attribute list
  and \<^verbatim>\<open>AverageRanks\<close> with no weights both raise \<^verbatim>\<open>ZeroDivisionError\<close>. On a set
  with at least one result both divisions are defined: \<^verbatim>\<open>AssignWeights\<close> returns the
  uniform weights, and \<^verbatim>\<open>AverageRanks\<close> returns a mapping, the one it returns for the
  explicit uniform weights \<open>1 / n\<close>.
\<close>

theorem uniform_weights_need_results:
  "AssignWeights \<lparr>results = []\<rparr> [] W = Inl ZeroDivisionError \<and>
   AverageRanks \<lparr>results = []\<rparr> None = Inl ZeroDivisionError \<and>
   (results s \<noteq> [] \<longrightarrow>
      AssignWeights s [] W =
        Inr (replicate (length (results s)) (W / of_nat (length (results s)))) \<and>
      (\<exists>avg. AverageRanks s None = Inr avg \<and>
             AverageRanks s (Some (replicate (length (results s))
                                     (1 / of_nat (length (results s))))) = Inr avg))"
proof (intro conjI impI)
  show "AssignWeights \<lparr>results = []\<rparr> [] W = Inl ZeroDivisionError"
    by (simp add: py_div_def)
  show "AverageRanks \<lparr>results = []\<rparr> None = Inl ZeroDivisionError"
    by (simp add: AverageRanks_def py_div_def len_def)
next
  assume "results s \<noteq> []"
  then show "AssignWeights s [] W =
      Inr (replicate (length (results s)) (W / of_nat (length (results s))))"
    by (simp add: py_div_def)
next
  assume ne: "results s \<noteq> []"
  obtain avg where "AverageRanks s (Some (replicate (length (results s))
                                     (1 / of_nat (length (results s))))) = Inr avg"
    using AverageRanks_Some_total by blast
  then show "\<exists>avg. AverageRanks s None = Inr avg \<and>
             AverageRanks s (Some (replicate (length (results s))
                                     (1 / of_nat (length (results s))))) = Inr avg"
    using AverageRanks_None [OF ne] by simp
qed

theorem uniform_weights_need_results_witness:
  "results \<lparr>results = example_results\<rparr> \<noteq> [] \<and>
   AssignWeights \<lparr>results = example_results\<rparr> [] 1 = Inr [1 / 3, 1 / 3, 1 / 3] \<and>
   AverageRanks \<lparr>results = example_results\<rparr> None = Inr [(''m2'', 4 / 3), (''m1'', 5 / 3)]"
proof -
  have ne: "results \<lparr>results = example_results\<rparr> \<noteq> []"
    by (simp add: example_results_def)
  have len3: "length example_results = 3"
    by (simp add: example_results_def)
  have av: "AverageRanks \<lparr>results = example_results\<rparr> (Some (replicate 3 (1 / 3))) =
      Inr [(''m2'', 4 / 3), (''m1'', 5 / 3)]"
    by code_simp
  from uniform_weights_need_results [of 1 "\<lparr>results = example_results\<rparr>"] ne len3 av
  show ?thesis
    by (simp add: numeral_3_eq_3)
qed

subsection \<open>The average ranks\<close>

lemma length_contribs:
  "length (concat (map (\<lambda>p. if P p then [f p] else []) zs)) = length (filter P zs)"
  by (induction zs) auto

lemma contribs_all:
  "\<forall>p\<in>set zs. P p \<Longrightarrow> concat (map (\<lambda>p. if P p then [f p] else []) zs) = map f zs"
  by (induction zs) auto

lemma length_filter_full: "length (filter P xs) = length xs \<longleftrightarrow> (\<forall>x\<in>set xs. P x)"
proof (induction xs)
  case Nil
  then show ?case by simp
next
  case (Cons x xs)
  show ?case
  proof (cases "P x")
    case True
    with Cons show ?thesis by simp
  next
    case False
    have "length (filter P xs) \<noteq> Suc (length xs)"
      using length_filter_le [of P xs] by linarith
    with False show ?thesis by simp
  qed
qed

lemma foldl_add_sum_list: "foldl (+) a xs = a + sum_list (xs :: rat list)"
  by (induction xs arbitrary: a) (auto simp: algebra_simps)

lemma py_sum_sum_list: "py_sum xs = sum_list xs"
  by (simp add: py_sum_def foldl_add_sum_list)

lemma distinct_keys_sort_key:
  "distinct (map fst L) \<Longrightarrow> distinct (map fst (sort_key f L))"
proof -
  assume "distinct (map fst L)"
  moreover have "mset (map fst (sort_key f L)) = mset (map fst L)"
    by simp
  ultimately show ?thesis
    by (metis mset_eq_imp_distinct_iff)
qed

lemma zip_covers_left:
  "length xs \<le> length ys \<Longrightarrow> map fst (zip xs ys) = xs"
  by (simp add: map_fst_zip_take)

lemma AverageRanks_Some_char:
  assumes d: "\<forall>r\<in>set (results s). distinct (metrics r)"
    and len: "length (results s) \<le> length ws"
  shows "\<exists>avg. AverageRanks s (Some ws) = Inr avg \<and>
           distinct (map fst avg) \<and>
           set (map fst avg) =
             {m \<in> (\<Union>r\<in>set (results s). set (metrics r)). \<forall>r\<in>set (results s). m \<in> set (metrics r)} \<and>
           (\<forall>m\<in>set (map fst avg). map_of avg m = Some (spec_weighted_rank (results s) ws m)) \<and>
           sorted (map snd avg)"
proof -
  define rs where "rs = results s"
  define zs where "zs = zip rs ws"
  have fz: "map fst zs = rs"
    using len by (simp add: zs_def rs_def zip_covers_left)
  then have sz: "fst ` set zs = set rs"
    by (metis set_map)
  have ball_zs: "(\<forall>p\<in>set zs. Q (fst p)) \<longleftrightarrow> (\<forall>r\<in>set rs. Q r)" for Q
    unfolding sz [symmetric] by simp
  have lz: "length zs = length rs"
    using fz by (metis length_map)
  have dz: "\<forall>p\<in>set zs. distinct (metrics (fst p))"
    using d ball_zs [of "\<lambda>r. distinct (metrics r)"] by (simp add: rs_def)
  from ranks_loop_char [OF dz, of "[]"] obtain ranks where
    loop: "ranks_loop zs [] = Inr ranks"
    and dk: "distinct (map fst ranks)"
    and ks: "set (map fst ranks) = (\<Union>p\<in>set zs. set (metrics (fst p)))"
    and lk: "\<And>m. lookup_list ranks m =
              concat (map (\<lambda>p. if m \<in> set (metrics (fst p))
                                then [of_int (rank_of (fst p) m) * snd p] else []) zs)"
    by (auto simp: lookup_list_def)
  have ks': "set (map fst ranks) = (\<Union>r\<in>set rs. set (metrics r))"
    using ks by (simp add: sz [symmetric])
  have val: "xs = lookup_list ranks m" if "(m, xs) \<in> set ranks" for m xs
    using that dk by (simp add: lookup_list_def)
  have full: "length xs = len s \<longleftrightarrow> (\<forall>r\<in>set rs. m \<in> set (metrics r))"
    if "(m, xs) \<in> set ranks" for m xs
  proof -
    have "length xs = length (filter (\<lambda>p. m \<in> set (metrics (fst p))) zs)"
      using val [OF that] by (simp add: lk length_contribs)
    moreover have "len s = length zs"
      using lz by (simp add: len_def rs_def)
    ultimately have "length xs = len s \<longleftrightarrow> (\<forall>p\<in>set zs. m \<in> set (metrics (fst p)))"
      using length_filter_full [of "\<lambda>p. m \<in> set (metrics (fst p))" zs] by simp
    then show ?thesis
      using ball_zs [of "\<lambda>r. m \<in> set (metrics r)"] by simp
  qed
  define kept where "kept = filter (\<lambda>(m, xs). length xs = len s) ranks"
  define L where "L = map (\<lambda>(m, xs). (m, py_sum xs)) kept"
  have keysL: "map fst L = map fst kept"
    by (simp add: L_def case_prod_beta comp_def)
  have dkept: "distinct (map fst kept)"
    using dk by (simp add: kept_def distinct_map_filter)
  have setkept: "set (map fst kept) =
      {m \<in> (\<Union>r\<in>set rs. set (metrics r)). \<forall>r\<in>set rs. m \<in> set (metrics r)}"
  proof (intro set_eqI iffI)
    fix m assume "m \<in> set (map fst kept)"
    then obtain xs where mem: "(m, xs) \<in> set ranks" and l: "length xs = len s"
      by (auto simp: kept_def)
    from mem have "m \<in> set (map fst ranks)" by force
    with full [OF mem] l show
      "m \<in> {m \<in> (\<Union>r\<in>set rs. set (metrics r)). \<forall>r\<in>set rs. m \<in> set (metrics r)}"
      unfolding ks' by simp
  next
    fix m assume a: "m \<in> {m \<in> (\<Union>r\<in>set rs. set (metrics r)). \<forall>r\<in>set rs. m \<in> set (metrics r)}"
    then have "m \<in> set (map fst ranks)" using ks' by blast
    then obtain xs where mem: "(m, xs) \<in> set ranks" by auto
    with full [OF mem] a have "(m, xs) \<in> set kept"
      by (simp add: kept_def)
    then show "m \<in> set (map fst kept)" by force
  qed
  have valL: "v = spec_weighted_rank rs ws m" if "(m, v) \<in> set L" for m v
  proof -
    from that obtain xs where mem: "(m, xs) \<in> set ranks" and l: "length xs = len s"
      and v: "v = py_sum xs"
      by (auto simp: L_def kept_def)
    from full [OF mem] l have "\<forall>p\<in>set zs. m \<in> set (metrics (fst p))"
      using ball_zs [of "\<lambda>r. m \<in> set (metrics r)"] by simp
    then have "xs = map (\<lambda>p. of_int (rank_of (fst p) m) * snd p) zs"
      using val [OF mem] by (simp add: lk contribs_all)
    then show ?thesis
      by (simp add: v py_sum_sum_list spec_weighted_rank_def zs_def case_prod_unfold)
  qed
  define avg where "avg = sort_key snd L"
  have davg: "distinct (map fst avg)"
    using dkept by (simp add: avg_def keysL [symmetric] distinct_keys_sort_key)
  have res: "AverageRanks s (Some ws) = Inr avg"
    using loop davg
    by (simp add: AverageRanks_def zs_def rs_def avg_def L_def kept_def dict_distinct)
  have set_avg: "set avg = set L"
    by (simp add: avg_def)
  have keys_avg: "set (map fst avg) = set (map fst kept)"
    using set_avg keysL by (metis set_map)
  have vals: "map_of avg m = Some (spec_weighted_rank rs ws m)" if "m \<in> set (map fst avg)" for m
  proof -
    from that obtain v where mv: "(m, v) \<in> set avg" by auto
    then have "v = spec_weighted_rank rs ws m"
      using valL set_avg by simp
    with mv davg show ?thesis by simp
  qed
  have c3: "set (map fst avg) =
      {m \<in> (\<Union>r\<in>set (results s). set (metrics r)). \<forall>r\<in>set (results s). m \<in> set (metrics r)}"
    unfolding keys_avg setkept rs_def ..
  have c4: "\<forall>m\<in>set (map fst avg). map_of avg m = Some (spec_weighted_rank (results s) ws m)"
    using vals unfolding rs_def by blast
  have c5: "sorted (map snd avg)"
    by (simp add: avg_def)
  show ?thesis
    using res davg c3 c4 c5 by blast
qed

text \<open>
  Claim C6, as amended. Let the metric names of every result be pairwise distinct (each
  \<^verbatim>\<open>corr_ranks\<close> is a dictionary). If weights are supplied, let there be at least one
  weight for each result; if none are supplied, let the set hold at least one result.
  Then \<^verbatim>\<open>AverageRanks\<close> returns a mapping whose keys are exactly the metrics that occur
  in the set and are in every result of it; each key maps to the weighted sum of its
  ranks across all results (with the weights \<open>1 / n\<close> when none are supplied); and the
  mapping is in ascending order of these values.
\<close>

theorem AverageRanks_intersection:
  assumes "\<forall>r\<in>set (results s). distinct (metrics r)"
    and "weights = None \<longrightarrow> results s \<noteq> []"
    and "\<forall>ws. weights = Some ws \<longrightarrow> length (results s) \<le> length ws"
  shows "\<exists>avg. AverageRanks s weights = Inr avg \<and>
           distinct (map fst avg) \<and>
           set (map fst avg) =
             {m \<in> (\<Union>r\<in>set (results s). set (metrics r)). \<forall>r\<in>set (results s). m \<in> set (metrics r)} \<and>
           (\<forall>m\<in>set (map fst avg).
              map_of avg m = Some (spec_weighted_rank (results s) (spec_weights s weights) m)) \<and>
           sorted (map snd avg)"
proof (cases weights)
  case None
  with assms(2) have ne: "results s \<noteq> []" by simp
  have "length (results s) \<le> length (spec_weights s weights)"
    by (simp add: spec_weights_def None)
  from AverageRanks_Some_char [OF assms(1) this]
  show ?thesis
    using AverageRanks_None [OF ne] None by (simp add: spec_weights_def)
next
  case (Some ws)
  with assms(3) have "length (results s) \<le> length ws" by simp
  from AverageRanks_Some_char [OF assms(1) this]
  show ?thesis
    using Some by (simp add: spec_weights_def)
qed

theorem AverageRanks_intersection_witness:
  "\<exists>avg. AverageRanks \<lparr>results = example_results\<rparr> None = Inr avg \<and>
         distinct (map fst avg) \<and> set (map fst avg) = {''m1'', ''m2''} \<and>
         sorted (map snd avg)"
proof -
  have h1: "\<forall>r\<in>set (results \<lparr>results = example_results\<rparr>). distinct (metrics r)"
    by (simp add: example_results_def example_r1_def example_r2_def example_r3_def metrics_def)
  have h2: "None = (None :: rat list option) \<longrightarrow> results \<lparr>results = example_results\<rparr> \<noteq> []"
    by (simp add: example_results_def)
  have h3: "\<forall>ws. None = Some ws \<longrightarrow> length (results \<lparr>results = example_results\<rparr>) \<le> length (ws :: rat list)"
    by simp
  have keys: "{m \<in> (\<Union>r\<in>set (results \<lparr>results = example_results\<rparr>). set (metrics r)).
                \<forall>r\<in>set (results \<lparr>results = example_results\<rparr>). m \<in> set (metrics r)} = {''m1'', ''m2''}"
    by (auto simp: example_results_def example_r1_def example_r2_def example_r3_def metrics_def)
  from AverageRanks_intersection [OF h1 h2 h3] show ?thesis
    unfolding keys by blast
qed

text \<open>The claim as it was stated fails on the empty set, where no mapping is returned,
  and when fewer weights than results are supplied: the metrics of the only result are
  in every result, and the mapping is empty.\<close>

theorem AverageRanks_counterexample:
  "AverageRanks \<lparr>results = []\<rparr> None = Inl ZeroDivisionError \<and>
   metrics example_r1 = [''m1'', ''m2''] \<and>
   AverageRanks \<lparr>results = [example_r1]\<rparr> (Some []) = Inr []"
  by (simp add: AverageRanks_def py_div_def len_def example_r1_def metrics_def dict_def)

subsection \<open>Names and their parsing\<close>

lemma sequence_err_map_Inr:
  "\<forall>x\<in>set xs. f x = Inr (g x) \<Longrightarrow> sequence_err (map f xs) = Inr (map g xs)"
  by (induction xs) auto

lemma Task_dict_keys: "map fst (Task_dict t) = Attributes"
  by (simp add: Task_dict_def Attributes_def)

lemma distinct_Attributes: "distinct Attributes"
  by (simp add: Attributes_def)

lemma getattr_Attributes:
  assumes "a \<in> set Attributes"
  shows "\<exists>v. getattr t a = Inr v \<and> (a, v) \<in> set (Task_dict t)"
proof -
  from assms have "a \<in> fst ` set (Task_dict t)"
    using Task_dict_keys [of t] by (metis set_map)
  then obtain v where "map_of (Task_dict t) a = Some v"
    by (metis map_of_eq_None_iff not_Some_eq)
  then show ?thesis
    by (auto simp: getattr_def dest: map_of_SomeD)
qed

lemma StrVal_Attributes: "a \<in> set Attributes \<Longrightarrow> StrVal t a = Inr (str_val t a)"
  using getattr_Attributes [of a t] by (auto simp: StrVal_def str_val_def)

lemma Task_name_canonical:
  "Task_name t = Inr (canonical_name (map (\<lambda>a. (a, str_val t a)) Attributes))"
proof -
  have "sequence_err
          (map (\<lambda>a. case StrVal t a of Inl e \<Rightarrow> Inl e | Inr v \<Rightarrow> Inr (a @ ''='' @ v)) Attributes) =
        Inr (map (\<lambda>a. a @ ''='' @ str_val t a) Attributes)"
    by (rule sequence_err_map_Inr) (simp add: StrVal_Attributes)
  then show ?thesis
    by (simp add: Task_name_def canonical_name_def comp_def)
qed

lemma split_ws_aux_word:
  "\<forall>c\<in>set w. \<not> py_isspace c \<Longrightarrow> split_ws_aux cur (w @ rest) = split_ws_aux (cur @ w) rest"
  by (induction w arbitrary: cur) auto

lemma py_isspace_space: "py_isspace CHR '' ''"
  by (simp add: py_isspace_def)

lemma str_join_Cons: "ws \<noteq> [] \<Longrightarrow> str_join sep (x # ws) = x @ sep @ str_join sep ws"
  by (cases ws) auto

lemma split_ws_aux_join:
  assumes "\<forall>w\<in>set ws. w \<noteq> [] \<and> (\<forall>c\<in>set w. \<not> py_isspace c)"
  shows "split_ws_aux [] (str_join '' '' ws) = ws"
  using assms
proof (induction ws)
  case Nil
  then show ?case by simp
next
  case (Cons x ws)
  then have x: "x \<noteq> []" "\<forall>c\<in>set x. \<not> py_isspace c" by auto
  show ?case
  proof (cases "ws = []")
    case True
    have "split_ws_aux [] (x @ []) = split_ws_aux ([] @ x) []"
      using x(2) by (rule split_ws_aux_word)
    with True x(1) show ?thesis by simp
  next
    case False
    have "split_ws_aux [] (x @ ('' '' @ str_join '' '' ws)) =
        split_ws_aux ([] @ x) ('' '' @ str_join '' '' ws)"
      using x(2) by (rule split_ws_aux_word)
    with False x(1) Cons show ?thesis
      by (simp add: str_join_Cons py_isspace_space)
  qed
qed

lemma split_aux_at_sep:
  "sep \<notin> set a \<Longrightarrow> split_aux sep cur (a @ sep # v) = (cur @ a) # split_aux sep [] v"
  by (induction a arbitrary: cur) auto

lemma str_split_pair:
  "CHR ''='' \<notin> set a \<Longrightarrow> CHR ''='' \<notin> set v \<Longrightarrow> str_split (a @ ''='' @ v) CHR ''='' = [a, v]"
  by (simp add: str_split_def split_aux_at_sep split_aux_no_sep)

lemma attr_vals_canonical:
  assumes "name r = canonical_name avs"
    and "\<forall>p\<in>set avs. clean (fst p) \<and> clean (snd p)"
  shows "attr_vals r = Inr (dict avs)"
proof -
  define toks where "toks = map (\<lambda>(a, v). a @ ''='' @ v) avs"
  have "\<forall>w\<in>set toks. w \<noteq> [] \<and> (\<forall>c\<in>set w. \<not> py_isspace c)"
    using assms(2) by (auto simp: toks_def clean_def py_isspace_def)
  then have "str_split_ws (name r) = toks"
    using assms(1) by (simp add: str_split_ws_def canonical_name_def toks_def split_ws_aux_join)
  moreover have "sequence_err
      (map (\<lambda>av. case str_split av CHR ''='' of [a, v] \<Rightarrow> Inr (a, v) | _ \<Rightarrow> Inl ValueError)
           (map (\<lambda>(a, v). a @ ''='' @ v) avs)) =
      Inr avs"
    using assms(2)
  proof (induction avs)
    case Nil
    then show ?case by simp
  next
    case (Cons p avs)
    obtain a v where p: "p = (a, v)" by (cases p)
    with Cons.prems have "str_split (a @ ''='' @ v) CHR ''='' = [a, v]"
      by (intro str_split_pair) (auto simp: clean_def)
    with Cons p show ?case by simp
  qed
  ultimately show ?thesis
    by (simp add: attr_vals_def toks_def)
qed

lemma clean_Attributes: "\<forall>a\<in>set Attributes. clean a"
  by (simp add: Attributes_def clean_def py_isspace_def)

lemma TaskResults_init_Some:
  "TaskResults_init (Some t) (Some (cr, m)) =
     Inr \<lparr>name = canonical_name (map (\<lambda>a. (a, str_val t a)) Attributes),
          pval = PFloat (Task.pval t), corr_ranks = cr, matrix = m\<rparr>"
  by (simp add: TaskResults_init_def Task_name_canonical)

lemma map_of_tabulate: "a \<in> set xs \<Longrightarrow> map_of (map (\<lambda>a. (a, f a)) xs) a = Some (f a)"
  by (induction xs) auto

text \<open>
  Claim C9, as amended. Let \<open>t\<close> be a task whose attribute texts (\<^verbatim>\<open>StrVal\<close>) hold
  neither \<^verbatim>\<open>=\<close> nor any whitespace character, and \<open>r\<close> the results built from it.
  Then \<^verbatim>\<open>attr_vals\<close> of \<open>r\<close> is defined and maps every attribute of the canonical list
  to the text that \<^verbatim>\<open>StrVal\<close> gives for it.
\<close>

theorem name_parses_back:
  assumes "\<forall>a\<in>set Attributes. \<forall>v. StrVal t a = Inr v \<longrightarrow>
             CHR ''='' \<notin> set v \<and> (\<forall>c\<in>set v. \<not> py_isspace c)"
    and "TaskResults_init (Some t) (Some res) = Inr r"
  shows "\<exists>d. attr_vals r = Inr d \<and>
             (\<forall>a\<in>set Attributes. \<exists>v. StrVal t a = Inr v \<and> dict_get d a = Inr v)"
proof -
  define avs where "avs = map (\<lambda>a. (a, str_val t a)) Attributes"
  obtain cr m where res: "res = (cr, m)" by (cases res)
  have nm: "name r = canonical_name avs"
    using assms(2) by (auto simp: res TaskResults_init_Some avs_def)
  have "\<forall>p\<in>set avs. clean (fst p) \<and> clean (snd p)"
  proof
    fix p assume "p \<in> set avs"
    then obtain a where a: "a \<in> set Attributes" and p: "p = (a, str_val t a)"
      by (auto simp: avs_def)
    from a have "StrVal t a = Inr (str_val t a)" by (rule StrVal_Attributes)
    with assms(1) a have "clean (str_val t a)" by (simp add: clean_def)
    with clean_Attributes a p show "clean (fst p) \<and> clean (snd p)" by simp
  qed
  with nm have "attr_vals r = Inr (dict avs)" by (rule attr_vals_canonical)
  moreover have keys: "map fst avs = Attributes"
    by (simp add: avs_def comp_def)
  then have "dict avs = avs"
    using distinct_Attributes by (simp add: dict_distinct)
  ultimately have av: "attr_vals r = Inr avs" by simp
  have "\<exists>v. StrVal t a = Inr v \<and> dict_get avs a = Inr v" if "a \<in> set Attributes" for a
    using that by (simp add: StrVal_Attributes dict_get_def avs_def map_of_tabulate)
  with av show ?thesis by blast
qed

lemma example_task_clean:
  "list_all (\<lambda>a. case StrVal example_task a of Inl _ \<Rightarrow> False
                  | Inr v \<Rightarrow> CHR ''='' \<notin> set v \<and> list_all (\<lambda>c. \<not> py_isspace c) v) Attributes"
  by code_simp

theorem name_parses_back_witness:
  "\<exists>r d. TaskResults_init (Some example_task) (Some ([], [])) = Inr r \<and>
         attr_vals r = Inr d \<and>
         dict_get d ''lang'' = Inr ''en-de'' \<and> dict_get d ''refs'' = Inr ''{'refA'}''"
proof -
  have h: "\<forall>a\<in>set Attributes. \<forall>v. StrVal example_task a = Inr v \<longrightarrow>
             CHR ''='' \<notin> set v \<and> (\<forall>c\<in>set v. \<not> py_isspace c)"
    using example_task_clean by (auto simp: list_all_iff split: sum.splits)
  obtain r where r: "TaskResults_init (Some example_task) (Some ([], [])) = Inr r"
    by (simp add: TaskResults_init_Some)
  from name_parses_back [OF h r] obtain d where
    d: "attr_vals r = Inr d"
    and v: "\<forall>a\<in>set Attributes. \<exists>v. StrVal example_task a = Inr v \<and> dict_get d a = Inr v"
    by blast
  have "StrVal example_task ''lang'' = Inr ''en-de''"
    and "StrVal example_task ''refs'' = Inr ''{'refA'}''"
    by code_simp+
  moreover have "''lang'' \<in> set Attributes" and "''refs'' \<in> set Attributes"
    by (simp_all add: Attributes_def)
  ultimately have "dict_get d ''lang'' = Inr ''en-de''" and "dict_get d ''refs'' = Inr ''{'refA'}''"
    using v by fastforce+
  with r d show ?thesis by blast
qed

text \<open>The claim as it was stated excludes \<^verbatim>\<open>=\<close> only. A task with a tab in its
  domain constructs, none of its attribute texts holds \<^verbatim>\<open>=\<close>, and \<^verbatim>\<open>attr_vals\<close> of
  its results raises \<^verbatim>\<open>ValueError\<close>: \<^verbatim>\<open>StrVal\<close> removes spaces, and \<^verbatim>\<open>split()\<close>
  splits at every whitespace character.\<close>

theorem name_with_tab_counterexample:
  "Task_init example_DATA [(''domain'', PStr [CHR ''a'', CHR 0x09, CHR ''b''])] =
     Inr example_tab_task \<and>
   list_all (\<lambda>a. case StrVal example_tab_task a of Inl _ \<Rightarrow> False
                  | Inr v \<Rightarrow> CHR ''='' \<notin> set v) Attributes \<and>
   (case TaskResults_init (Some example_tab_task) (Some ([], [])) of
      Inl _ \<Rightarrow> False
    | Inr r \<Rightarrow> attr_vals r = Inl ValueError)"
  by code_simp

subsection \<open>The name is canonical\<close>










subsection \<open>SplitByAttr\<close>

lemma attr_val_SomeD:
  "attr_val a r = Some v \<Longrightarrow> \<exists>d. attr_vals r = Inr d \<and> dict_get d a = Inr v"
  by (auto simp: attr_val_def split: sum.splits)

lemma lookup_results_dict_set:
  "lookup_results (dict_set a g d) b = (if b = a then results g else lookup_results d b)"
  by (simp add: lookup_results_def map_of_dict_set)

lemma lookup_results_absent: "a \<notin> set (map fst d) \<Longrightarrow> lookup_results d a = []"
  by (simp add: lookup_results_def map_of_absent)

lemma distinct_dict_set: "distinct (map fst d) \<Longrightarrow> distinct (map fst (dict_set a v d))"
  by (simp add: dict_set_keys)

lemma split_loop_char:
  assumes "\<forall>r\<in>set rest. attr_val a r \<noteq> None" and "distinct (map fst subsets)"
  shows "\<exists>groups. split_loop a rest subsets = Inr groups \<and>
           distinct (map fst groups) \<and>
           set (map fst groups) =
             set (map fst subsets) \<union> {v. \<exists>r\<in>set rest. attr_val a r = Some v} \<and>
           (\<forall>v. lookup_results groups v =
                  lookup_results subsets v @ filter (\<lambda>r. attr_val a r = Some v) rest)"
  using assms
proof (induction rest arbitrary: subsets)
  case Nil
  then show ?case by simp
next
  case (Cons result rest)
  from Cons.prems(1) obtain val where val: "attr_val a result = Some val" by auto
  then obtain d where d: "attr_vals result = Inr d" "dict_get d a = Inr val"
    using attr_val_SomeD by blast
  define subsets1 where
    "subsets1 = (if val \<notin> set (map fst subsets)
                 then dict_set val \<lparr>results = []\<rparr> subsets else subsets)"
  have in1: "val \<in> set (map fst subsets1)"
    by (simp add: subsets1_def dict_set_key_set)
  then obtain sub where sub: "map_of subsets1 val = Some sub"
    by (metis map_of_eq_None_iff not_Some_eq set_map)
  have look1: "lookup_results subsets1 v = lookup_results subsets v" for v
    using lookup_results_absent [of val subsets]
    by (simp add: subsets1_def lookup_results_dict_set)
  have rsub: "results sub = lookup_results subsets val"
    using sub look1 [of val] by (simp add: lookup_results_def)
  define subsets2 where "subsets2 = dict_set val (Append sub result) subsets1"
  have step: "split_loop a (result # rest) subsets = split_loop a rest subsets2"
    using d sub by (simp add: subsets1_def subsets2_def dict_get_def Let_def)
  have d1: "distinct (map fst subsets1)"
    using Cons.prems(2) by (simp add: subsets1_def distinct_dict_set)
  then have d2: "distinct (map fst subsets2)"
    by (simp add: subsets2_def distinct_dict_set)
  have k2: "set (map fst subsets2) = insert val (set (map fst subsets))"
    by (auto simp: subsets2_def subsets1_def dict_set_key_set)
  have look2: "lookup_results subsets2 v =
      (if v = val then lookup_results subsets val @ [result] else lookup_results subsets v)" for v
    by (simp add: subsets2_def lookup_results_dict_set look1 Append_def rsub)
  from Cons.prems(1) have "\<forall>r\<in>set rest. attr_val a r \<noteq> None" by simp
  from Cons.IH [OF this d2] obtain groups where
    g: "split_loop a rest subsets2 = Inr groups"
    and dg: "distinct (map fst groups)"
    and kg: "set (map fst groups) =
               set (map fst subsets2) \<union> {v. \<exists>r\<in>set rest. attr_val a r = Some v}"
    and lg: "\<And>v. lookup_results groups v =
               lookup_results subsets2 v @ filter (\<lambda>r. attr_val a r = Some v) rest"
    by blast
  have c2: "set (map fst groups) =
      set (map fst subsets) \<union> {v. \<exists>r\<in>set (result # rest). attr_val a r = Some v}"
    unfolding kg k2 using val by auto
  have c3: "lookup_results groups v =
      lookup_results subsets v @ filter (\<lambda>r. attr_val a r = Some v) (result # rest)" for v
    unfolding lg look2 using val by simp
  show ?case
    using step g dg c2 c3 by simp
qed

lemma SplitByAttr_char:
  assumes "\<forall>r\<in>set (results s). attr_val a r \<noteq> None"
  shows "\<exists>groups. SplitByAttr s a = Inr groups \<and>
           distinct (map fst groups) \<and>
           set (map fst groups) = {v. \<exists>r\<in>set (results s). attr_val a r = Some v} \<and>
           (\<forall>p\<in>set groups.
              results (snd p) = filter (\<lambda>r. attr_val a r = Some (fst p)) (results s))"
proof -
  from split_loop_char [OF assms, of "[]"] obtain groups where
    g: "split_loop a (results s) [] = Inr groups"
    and dg: "distinct (map fst groups)"
    and kg: "set (map fst groups) = {v. \<exists>r\<in>set (results s). attr_val a r = Some v}"
    and lg: "\<And>v. lookup_results groups v = filter (\<lambda>r. attr_val a r = Some v) (results s)"
    by (auto simp: lookup_results_def)
  have "results (snd p) = filter (\<lambda>r. attr_val a r = Some (fst p)) (results s)"
    if "p \<in> set groups" for p
  proof -
    from that dg have "map_of groups (fst p) = Some (snd p)" by simp
    then show ?thesis
      using lg [of "fst p"] by (simp add: lookup_results_def)
  qed
  with g dg kg show ?thesis
    by (auto simp: SplitByAttr_def)
qed





subsection \<open>AssignWeights\<close>

lemma zip_map_self: "zip xs (map f xs) = map (\<lambda>x. (x, f x)) xs"
  by (induction xs) auto

lemma store_weights_map:
  "store_weights sub (map f (results sub)) ws =
     fold (\<lambda>r d. dict_set (name r) (f r) d) (results sub) ws"
  by (simp add: store_weights_def zip_map_self fold_map comp_def)

lemma assign_fold:
  assumes "n \<noteq> 0"
    and "\<forall>g\<in>set gs. AssignWeights g attrs (W / of_nat n) = Inr (map wt (results g))"
  shows "fold (\<lambda>sub acc.
                 case acc of
                   Inl e \<Rightarrow> Inl e
                 | Inr ws \<Rightarrow>
                    (case py_div W n of
                       Inl e \<Rightarrow> Inl e
                     | Inr wn \<Rightarrow>
                        (case AssignWeights sub attrs wn of
                           Inl e \<Rightarrow> Inl e
                         | Inr subweights \<Rightarrow> Inr (store_weights sub subweights ws))))
           gs (Inr ws0) =
         Inr (fold (\<lambda>r d. dict_set (name r) (wt r) d) (concat (map results gs)) ws0)"
proof -
  define F where
    "F = (\<lambda>sub acc.
            case acc of
              Inl e \<Rightarrow> Inl e
            | Inr ws \<Rightarrow>
               (case py_div W n of
                  Inl e \<Rightarrow> Inl e
                | Inr wn \<Rightarrow>
                   (case AssignWeights sub attrs wn of
                      Inl e \<Rightarrow> Inl e
                    | Inr subweights \<Rightarrow> Inr (store_weights sub subweights ws))))"
  have F_step: "F g (Inr ws) = Inr (fold (\<lambda>r d. dict_set (name r) (wt r) d) (results g) ws)"
    if "AssignWeights g attrs (W / of_nat n) = Inr (map wt (results g))" for g ws
    using that assms(1) by (simp add: F_def py_div_def store_weights_map)
  have "fold F gs (Inr ws0) =
      Inr (fold (\<lambda>r d. dict_set (name r) (wt r) d) (concat (map results gs)) ws0)"
    using assms(2)
  proof (induction gs arbitrary: ws0)
    case Nil
    then show ?case by simp
  next
    case (Cons g gs)
    then show ?case
      by (simp add: F_step)
  qed
  then show ?thesis
    unfolding F_def .
qed

lemma AssignWeights_Cons:
  assumes "SplitByAttr s a = Inr groups" and "groups \<noteq> []"
    and "\<forall>p\<in>set groups.
           AssignWeights (snd p) attrs (W / of_nat (length groups)) = Inr (map wt (results (snd p)))"
  shows "AssignWeights s (a # attrs) W =
           Inr (map snd (fold (\<lambda>r d. dict_set (name r) (wt r) d)
                  (concat (map results (map snd groups)))
                  (dict (map (\<lambda>r. (name r, 0)) (results s)))))"
proof -
  have "length (map snd groups) \<noteq> 0"
    using assms(2) by simp
  moreover have "\<forall>g\<in>set (map snd groups).
      AssignWeights g attrs (W / of_nat (length (map snd groups))) = Inr (map wt (results g))"
    using assms(3) by simp
  ultimately have "fold (\<lambda>sub acc.
                 case acc of
                   Inl e \<Rightarrow> Inl e
                 | Inr ws \<Rightarrow>
                    (case py_div W (length (map snd groups)) of
                       Inl e \<Rightarrow> Inl e
                     | Inr wn \<Rightarrow>
                        (case AssignWeights sub attrs wn of
                           Inl e \<Rightarrow> Inl e
                         | Inr subweights \<Rightarrow> Inr (store_weights sub subweights ws))))
           (map snd groups) (Inr (dict (map (\<lambda>r. (name r, 0)) (results s)))) =
         Inr (fold (\<lambda>r d. dict_set (name r) (wt r) d) (concat (map results (map snd groups)))
                (dict (map (\<lambda>r. (name r, 0)) (results s))))"
    by (rule assign_fold)
  then show ?thesis
    by (simp only: AssignWeights.simps Let_def assms(1) sum.case)
qed

lemma fold_names:
  assumes "inj_on name (set xs)" and "name ` set xs \<subseteq> set (map fst d)"
  shows "map fst (fold (\<lambda>r d. dict_set (name r) (wt r) d) xs d) = map fst d \<and>
         (\<forall>r\<in>set xs. map_of (fold (\<lambda>r d. dict_set (name r) (wt r) d) xs d) (name r) = Some (wt r)) \<and>
         (\<forall>key. key \<notin> name ` set xs \<longrightarrow>
            map_of (fold (\<lambda>r d. dict_set (name r) (wt r) d) xs d) key = map_of d key)"
  using assms
proof (induction xs arbitrary: d)
  case Nil
  then show ?case by simp
next
  case (Cons x xs)
  define d' where "d' = dict_set (name x) (wt x) d"
  have keys': "map fst d' = map fst d"
    using Cons.prems(2) by (simp add: d'_def dict_set_keys)
  have inj: "inj_on name (set xs)"
    using Cons.prems(1) by (simp add: inj_on_def)
  have sub: "name ` set xs \<subseteq> set (map fst d')"
    using Cons.prems(2) keys' by simp
  note IH = Cons.IH [OF inj sub]
  let ?res = "fold (\<lambda>r d. dict_set (name r) (wt r) d) xs d'"
  have c1: "map fst ?res = map fst d"
    using IH keys' by simp
  have c2: "map_of ?res (name r) = Some (wt r)" if "r \<in> set (x # xs)" for r
  proof (cases "r \<in> set xs")
    case True
    with IH show ?thesis by blast
  next
    case False
    with that have rx: "r = x" by simp
    have "name x \<notin> name ` set xs"
    proof
      assume "name x \<in> name ` set xs"
      then obtain y where "y \<in> set xs" "name y = name x" by auto
      with Cons.prems(1) have "y = x" by (auto simp: inj_on_def)
      with \<open>y \<in> set xs\<close> False rx show False by simp
    qed
    with IH have "map_of ?res (name x) = map_of d' (name x)" by blast
    then show ?thesis
      by (simp add: rx d'_def map_of_dict_set)
  qed
  have c3: "map_of ?res key = map_of d key" if "key \<notin> name ` set (x # xs)" for key
  proof -
    from that have "key \<notin> name ` set xs" and "key \<noteq> name x" by auto
    with IH have "map_of ?res key = map_of d' key" by blast
    then show ?thesis
      using \<open>key \<noteq> name x\<close> by (simp add: d'_def map_of_dict_set)
  qed
  show ?case
    using c1 c2 c3 by (simp add: d'_def)
qed

lemma values_by_keys:
  assumes "distinct (map fst d)" and "map fst d = map f xs"
    and "\<forall>x\<in>set xs. map_of d (f x) = Some (g x)"
  shows "map snd d = map g xs"
proof (rule nth_equalityI)
  show "length (map snd d) = length (map g xs)"
    using assms(2) by (metis length_map)
next
  fix i assume "i < length (map snd d)"
  then have i: "i < length d" by simp
  then have ix: "i < length xs"
    using assms(2) by (metis length_map)
  have "fst (d ! i) = f (xs ! i)"
    using assms(2) i ix by (metis nth_map)
  then have "d ! i = (f (xs ! i), snd (d ! i))"
    by (metis prod.collapse)
  then have "(f (xs ! i), snd (d ! i)) \<in> set d"
    using i by (metis nth_mem)
  with assms(1) have "map_of d (f (xs ! i)) = Some (snd (d ! i))"
    by (rule map_of_is_SomeI)
  moreover have "map_of d (f (xs ! i)) = Some (g (xs ! i))"
    using assms(3) ix by simp
  ultimately show "map snd d ! i = map g xs ! i"
    using i ix by simp
qed

lemma sum_list_indicator:
  "distinct ks \<Longrightarrow>
   sum_list (map (\<lambda>key. if key = a then c else 0) ks) = (if a \<in> set ks then c else (0::rat))"
  by (induction ks) auto

lemma sum_list_partition:
  assumes "distinct ks" and "\<forall>x\<in>set xs. g x \<in> set ks"
  shows "sum_list (map f xs) =
         sum_list (map (\<lambda>key. sum_list (map f (filter (\<lambda>x. g x = key) xs))) ks :: rat list)"
  using assms(2)
proof (induction xs)
  case Nil
  then show ?case by simp
next
  case (Cons x xs)
  have "sum_list (map (\<lambda>key. sum_list (map f (filter (\<lambda>x. g x = key) (x # xs)))) ks) =
        sum_list (map (\<lambda>key. (if key = g x then f x else 0) +
                              sum_list (map f (filter (\<lambda>x. g x = key) xs))) ks)"
    by (intro arg_cong [where f = sum_list] map_cong) auto
  also have "\<dots> = sum_list (map (\<lambda>key. if key = g x then f x else 0) ks) +
                  sum_list (map (\<lambda>key. sum_list (map f (filter (\<lambda>x. g x = key) xs))) ks)"
    by (simp add: sum_list_addf)
  also have "\<dots> = f x + sum_list (map f xs)"
    using Cons assms(1) by (simp add: sum_list_indicator)
  finally show ?case by simp
qed

lemma AssignWeights_char:
  assumes "results s \<noteq> []" and "distinct (map name (results s))"
    and "\<forall>r\<in>set (results s). \<forall>a\<in>set attrs. attr_val a r \<noteq> None"
  shows "AssignWeights s attrs W = Inr (map (spec_weight (results s) attrs W) (results s)) \<and>
         sum_list (map (spec_weight (results s) attrs W) (results s)) = W"
  using assms
proof (induction attrs arbitrary: s W)
  case Nil
  then have "length (results s) \<noteq> 0" by simp
  then show ?case
    by (simp add: py_div_def map_replicate_const sum_list_replicate)
next
  case (Cons a attrs)
  define rs where "rs = results s"
  define wt where "wt = spec_weight rs (a # attrs) W"
  have ne: "rs \<noteq> []" and dn: "distinct (map name rs)"
    and present: "\<forall>r\<in>set rs. attr_val a r \<noteq> None"
    and present': "\<forall>r\<in>set rs. \<forall>b\<in>set attrs. attr_val b r \<noteq> None"
    using Cons.prems by (simp_all add: rs_def)
  from SplitByAttr_char [of s a] present obtain groups where
    split: "SplitByAttr s a = Inr groups"
    and dg: "distinct (map fst groups)"
    and kg: "set (map fst groups) = {v. \<exists>r\<in>set rs. attr_val a r = Some v}"
    and fg: "\<And>p. p \<in> set groups \<Longrightarrow>
               results (snd p) = filter (\<lambda>r. attr_val a r = Some (fst p)) rs"
    unfolding rs_def by blast
  define n where "n = length groups"
  have img: "attr_val a ` set rs = Some ` set (map fst groups)"
    unfolding kg using present by force
  have "card (attr_val a ` set rs) = card (set (map fst groups))"
    unfolding img by (simp add: card_image)
  also have "\<dots> = n"
    using dg by (simp add: n_def distinct_card del: set_map)
  finally have card_n: "card (attr_val a ` set rs) = n" .
  have gne: "groups \<noteq> []"
  proof
    assume "groups = []"
    with img have "attr_val a ` set rs = {}" by simp
    with ne show False by simp
  qed
  then have n0: "n \<noteq> 0" by (simp add: n_def)
  have group: "AssignWeights (snd p) attrs (W / of_nat n) = Inr (map wt (results (snd p))) \<and>
               sum_list (map wt (results (snd p))) = W / of_nat n"
    if p: "p \<in> set groups" for p
  proof -
    have res: "results (snd p) = filter (\<lambda>r. attr_val a r = Some (fst p)) rs"
      using p by (rule fg)
    have "fst p \<in> set (map fst groups)" using p by simp
    then obtain r0 where "r0 \<in> set rs" "attr_val a r0 = Some (fst p)"
      unfolding kg by blast
    then have h1: "results (snd p) \<noteq> []"
      unfolding res by (auto simp: filter_empty_conv)
    have h2: "distinct (map name (results (snd p)))"
      unfolding res using dn by (rule distinct_map_filter)
    have h3: "\<forall>r\<in>set (results (snd p)). \<forall>b\<in>set attrs. attr_val b r \<noteq> None"
      unfolding res using present' by simp
    have same: "spec_weight (results (snd p)) attrs (W / of_nat n) r = wt r"
      if "r \<in> set (results (snd p))" for r
    proof -
      from that have "attr_val a r = Some (fst p)"
        unfolding res by simp
      then show ?thesis
        by (simp add: wt_def card_n res)
    qed
    then have "map (spec_weight (results (snd p)) attrs (W / of_nat n)) (results (snd p)) =
        map wt (results (snd p))"
      by simp
    with Cons.IH [OF h1 h2 h3, of "W / of_nat n"] show ?thesis
      by simp
  qed
  define xs where "xs = concat (map results (map snd groups))"
  define d0 where "d0 = dict (map (\<lambda>r. (name r, 0 :: rat)) rs)"
  have d0: "d0 = map (\<lambda>r. (name r, 0)) rs"
    unfolding d0_def using dn by (intro dict_distinct) (simp add: comp_def)
  have keys0: "map fst d0 = map name rs"
    by (simp add: d0 comp_def)
  have run: "AssignWeights s (a # attrs) W =
      Inr (map snd (fold (\<lambda>r d. dict_set (name r) (wt r) d) xs d0))"
    unfolding xs_def d0_def rs_def
    using split gne group by (intro AssignWeights_Cons) (simp_all add: n_def)
  have set_xs: "set xs = set rs"
  proof (intro set_eqI iffI)
    fix r assume "r \<in> set xs"
    then obtain p where "p \<in> set groups" "r \<in> set (results (snd p))"
      by (auto simp: xs_def)
    then show "r \<in> set rs" using fg by simp
  next
    fix r assume r: "r \<in> set rs"
    with present obtain v where v: "attr_val a r = Some v" by auto
    with r have "v \<in> set (map fst groups)" unfolding kg by blast
    then obtain p where p: "p \<in> set groups" "fst p = v" by auto
    with fg r v have "r \<in> set (results (snd p))" by simp
    with p show "r \<in> set xs" by (auto simp: xs_def)
  qed
  have inj: "inj_on name (set xs)"
    using dn by (simp add: set_xs distinct_map)
  have sub: "name ` set xs \<subseteq> set (map fst d0)"
    by (simp add: set_xs keys0)
  define final where "final = fold (\<lambda>r d. dict_set (name r) (wt r) d) xs d0"
  from fold_names [OF inj sub, of wt] have
    kf: "map fst final = map name rs"
    and vf: "\<forall>r\<in>set rs. map_of final (name r) = Some (wt r)"
    by (simp_all add: final_def keys0 set_xs)
  have "distinct (map fst final)" using dn kf by simp
  then have vals: "map snd final = map wt rs"
    using kf vf by (rule values_by_keys)
  have dks: "distinct (map (\<lambda>p. Some (fst p)) groups)"
    using dg by (simp add: distinct_map inj_on_def)
  have cover: "\<forall>r\<in>set rs. attr_val a r \<in> set (map (\<lambda>p. Some (fst p)) groups)"
    using img by auto
  have "sum_list (map wt rs) =
      sum_list (map (\<lambda>key. sum_list (map wt (filter (\<lambda>r. attr_val a r = key) rs)))
                  (map (\<lambda>p. Some (fst p)) groups))"
    using dks cover by (rule sum_list_partition)
  also have "\<dots> = sum_list (map (\<lambda>p. sum_list (map wt (results (snd p)))) groups)"
    by (simp add: comp_def fg cong: map_cong)
  also have "\<dots> = sum_list (map (\<lambda>p. W / of_nat n) groups)"
    using group by (simp cong: map_cong)
  also have "\<dots> = W"
    using n0 by (simp add: sum_list_triv n_def)
  finally have total: "sum_list (map wt rs) = W" .
  from run have "AssignWeights s (a # attrs) W = Inr (map snd final)"
    unfolding final_def .
  then have "AssignWeights s (a # attrs) W = Inr (map wt rs)"
    unfolding vals .
  then show ?case
    using total unfolding wt_def rs_def by (rule conjI)
qed

text \<open>
  Claim C3, as amended. Let the set hold at least one result, let the names of its
  results be pairwise distinct, and let every attribute of the list be recoverable from
  the name of every result. Then \<^verbatim>\<open>AssignWeights\<close> returns one weight for each result, in
  the order of the results: the weight of the \<open>i\<close>-th result is the share that the
  recursion over the attributes gives to that result. The weights sum to the total
  weight, and for an empty attribute list each of the \<open>n\<close> weights is the total divided
  by \<open>n\<close>.
\<close>

theorem AssignWeights_sums_to_total:
  assumes "results s \<noteq> []" and "distinct (map name (results s))"
    and "\<forall>r\<in>set (results s). \<forall>a\<in>set attrs. attr_val a r \<noteq> None"
  shows "\<exists>ws. AssignWeights s attrs W = Inr ws \<and>
           length ws = length (results s) \<and>
           ws = map (spec_weight (results s) attrs W) (results s) \<and>
           sum_list ws = W \<and>
           (attrs = [] \<longrightarrow> ws = replicate (length (results s)) (W / of_nat (length (results s))))"
proof -
  have "AssignWeights s attrs W = Inr (map (spec_weight (results s) attrs W) (results s))"
    and "sum_list (map (spec_weight (results s) attrs W) (results s)) = W"
    using AssignWeights_char [OF assms] by simp_all
  moreover have "spec_weight (results s) [] W = (\<lambda>r. W / of_nat (length (results s)))"
    by (rule ext) simp
  then have "attrs = [] \<longrightarrow>
      map (spec_weight (results s) attrs W) (results s) =
      replicate (length (results s)) (W / of_nat (length (results s)))"
    by (simp add: map_replicate_const)
  ultimately show ?thesis by simp
qed

text \<open>The claim as it was stated fails on the set of zero results: with an empty attribute
  list the division by the count raises, and with an attribute the list of weights is
  empty, so its sum is 0 for every total weight.\<close>

theorem AssignWeights_empty_counterexample:
  "AssignWeights \<lparr>results = []\<rparr> [] 1 = Inl ZeroDivisionError \<and>
   AssignWeights \<lparr>results = []\<rparr> [''lang''] 1 = Inr []"
  by (simp add: py_div_def SplitByAttr_def dict_def)

lemma example_results_attrs:
  "list_all (\<lambda>r. list_all (\<lambda>a. attr_val a r \<noteq> None) [''lang'', ''level'']) example_results"
  by code_simp

lemma example_results_weights:
  "AssignWeights \<lparr>results = example_results\<rparr> [''lang'', ''level''] 1 = Inr [1 / 4, 1 / 2, 1 / 4]"
  by code_simp

theorem AssignWeights_sums_to_total_witness:
  "AssignWeights \<lparr>results = example_results\<rparr> [''lang'', ''level''] 1 = Inr [1 / 4, 1 / 2, 1 / 4] \<and>
   [1 / 4, 1 / 2, 1 / 4] =
     map (spec_weight example_results [''lang'', ''level''] 1) example_results \<and>
   sum_list [1 / 4, 1 / 2, 1 / 4 :: rat] = 1"
proof -
  let ?s = "\<lparr>results = example_results\<rparr>"
  have h1: "results ?s \<noteq> []"
    by (simp add: example_results_def)
  have h2: "distinct (map name (results ?s))"
    by (simp add: example_results_def example_r1_def example_r2_def example_r3_def)
  have h3: "\<forall>r\<in>set (results ?s). \<forall>a\<in>set [''lang'', ''level'']. attr_val a r \<noteq> None"
    using example_results_attrs by (simp add: list_all_iff)
  from AssignWeights_sums_to_total [OF h1 h2 h3, of 1] example_results_weights
  show ?thesis by auto
qed

text \<open>Two results with one name: the weights are stored under the names of the results,
  so a single weight comes back for the two results, and the weights sum to a half of
  the total. (The amended claim is about pairwise distinct names and says nothing
  here.)\<close>

lemma AssignWeights_duplicate_names:
  "AssignWeights \<lparr>results = [example_r1, example_r1]\<rparr> [''lang''] 1 = Inr [1 / 2] \<and>
   AssignWeights \<lparr>results = [example_r1, example_r1]\<rparr> [] 1 = Inr [1 / 2, 1 / 2]"
  by code_simp

subsection \<open>TaskSet\<close>

lemma sequence_err_Inr: "sequence_err xs = Inr ys \<Longrightarrow> xs = map Inr ys"
proof (induction xs arbitrary: ys)
  case Nil
  then show ?case by simp
next
  case (Cons x xs)
  then show ?case
    by (cases x) (auto split: sum.splits)
qed

lemma length_product_lists_prod:
  "length (product_lists xss) = prod_list (map length xss)"
  by (induction xss) (simp_all add: length_concat comp_def sum_list_triv)

lemma zip_left_inj:
  "length xs = length ks \<Longrightarrow> length ys = length ks \<Longrightarrow> zip ks xs = zip ks ys \<Longrightarrow> xs = ys"
  by (metis map_snd_zip)

lemma distinct_combinations:
  assumes "\<forall>vs\<in>set vss. distinct vs" and "length keys = length vss"
  shows "distinct (map (zip keys) (product_lists vss))"
proof -
  have "distinct (product_lists vss)"
    using assms(1) by (rule distinct_product_lists)
  moreover have "inj_on (zip keys) (set (product_lists vss))"
  proof (rule inj_onI)
    fix xs ys
    assume "xs \<in> set (product_lists vss)" "ys \<in> set (product_lists vss)"
      and "zip keys xs = zip keys ys"
    then have "length xs = length keys" and "length ys = length keys" and "zip keys xs = zip keys ys"
      using assms(2) by (simp_all add: in_set_product_lists_length)
    then show "xs = ys"
      by (rule zip_left_inj)
  qed
  ultimately show ?thesis
    by (simp add: distinct_map)
qed

lemma make_task_Inr:
  assumes "make_task DATA keys attrs vals = Inr t" and "distinct keys"
  shows "Task_init DATA (zip keys vals @ attrs) = Inr t"
proof -
  have "distinct (map fst (zip keys vals))"
    using assms(2) by (simp add: map_fst_zip_take distinct_take)
  then have "dict (zip keys vals) = zip keys vals"
    by (rule dict_distinct)
  with assms(1) show ?thesis
    by (auto simp: make_task_def Let_def split: if_splits)
qed

text \<open>
  Claim C5, as amended. An absent or empty mapping produces zero tasks. For a mapping (a
  dictionary, so with pairwise distinct keys) with at least one attribute, when the
  construction succeeds, the set holds exactly as many tasks as the product of the
  lengths of the value lists; they are, in the order of the cartesian product, the tasks
  constructed from each combination with the fixed attributes merged in; and the
  combinations are pairwise distinct when no value list repeats a value.
\<close>

theorem TaskSet_cartesian_product:
  "TaskSet_init DATA None attrs = Inr \<lparr>tasks = [], eval_set_dict = []\<rparr> \<and>
   TaskSet_init DATA (Some []) attrs = Inr \<lparr>tasks = [], eval_set_dict = []\<rparr> \<and>
   (combs \<noteq> [] \<and> distinct (map fst combs) \<and> TaskSet_init DATA (Some combs) attrs = Inr ts \<longrightarrow>
      length (tasks ts) = prod_list (map (\<lambda>c. length (snd c)) combs) \<and>
      map Inr (tasks ts) =
        map (\<lambda>vals. Task_init DATA (zip (map fst combs) vals @ attrs))
            (product_lists (map snd combs)) \<and>
      ((\<forall>c\<in>set combs. distinct (snd c)) \<longrightarrow>
         distinct (map (zip (map fst combs)) (product_lists (map snd combs)))))"
proof (intro conjI impI)
  show "TaskSet_init DATA None attrs = Inr \<lparr>tasks = [], eval_set_dict = []\<rparr>"
    and "TaskSet_init DATA (Some []) attrs = Inr \<lparr>tasks = [], eval_set_dict = []\<rparr>"
    by (simp_all add: TaskSet_init_def)
next
  assume h: "combs \<noteq> [] \<and> distinct (map fst combs) \<and> TaskSet_init DATA (Some combs) attrs = Inr ts"
  then have "sequence_err (map (make_task DATA (map fst combs) attrs)
                             (product_lists (map snd combs))) = Inr (tasks ts)"
    by (auto simp: TaskSet_init_def split: sum.splits)
  then have eq: "map (make_task DATA (map fst combs) attrs) (product_lists (map snd combs)) =
      map Inr (tasks ts)"
    by (rule sequence_err_Inr)
  then have "length (tasks ts) = length (product_lists (map snd combs))"
    by (metis length_map)
  then show "length (tasks ts) = prod_list (map (\<lambda>c. length (snd c)) combs)"
    by (simp add: length_product_lists_prod comp_def)
  have "Task_init DATA (zip (map fst combs) vals @ attrs) = make_task DATA (map fst combs) attrs vals"
    if "vals \<in> set (product_lists (map snd combs))" for vals
  proof -
    from that eq obtain t where "make_task DATA (map fst combs) attrs vals = Inr t"
      by (metis (no_types, lifting) imageE image_eqI list.set_map)
    then show ?thesis
      using h make_task_Inr by simp
  qed
  then show "map Inr (tasks ts) =
        map (\<lambda>vals. Task_init DATA (zip (map fst combs) vals @ attrs))
            (product_lists (map snd combs))"
    using eq by (simp cong: map_cong)
next
  assume "\<forall>c\<in>set combs. distinct (snd c)"
  then show "distinct (map (zip (map fst combs)) (product_lists (map snd combs)))"
    by (intro distinct_combinations) simp_all
qed

text \<open>The claim as it was stated fails for a value list that repeats a value: two tasks
  are produced, as the lengths say, and they are the same combination.\<close>

theorem TaskSet_repeated_value_counterexample:
  "map_sum id tasks
     (TaskSet_init example_DATA (Some [(''lang'', [PStr ''en-de'', PStr ''en-de''])]) []) =
     Inr [example_task, example_task]"
  by code_simp

lemma example_task_set:
  "case TaskSet_init example_DATA
          (Some [(''lang'', [PStr ''en-de'', PStr ''de-en'']),
                 (''level'', [PStr ''sys'', PStr ''seg''])])
          [(''k'', PInt 5)] of
     Inl _ \<Rightarrow> False
   | Inr ts \<Rightarrow> map lang (tasks ts) = [''en-de'', ''en-de'', ''de-en'', ''de-en''] \<and>
              map level (tasks ts) = [''sys'', ''seg'', ''sys'', ''seg''] \<and>
              map k (tasks ts) = [5, 5, 5, 5]"
  by code_simp

theorem TaskSet_cartesian_product_witness:
  "\<exists>ts. TaskSet_init example_DATA
          (Some [(''lang'', [PStr ''en-de'', PStr ''de-en'']),
                 (''level'', [PStr ''sys'', PStr ''seg''])])
          [(''k'', PInt 5)] = Inr ts \<and>
        length (tasks ts) = 2 * 2 \<and>
        map lang (tasks ts) = [''en-de'', ''en-de'', ''de-en'', ''de-en''] \<and>
        map level (tasks ts) = [''sys'', ''seg'', ''sys'', ''seg''] \<and>
        distinct (map (zip [''lang'', ''level''])
                    (product_lists [[PStr ''en-de'', PStr ''de-en''], [PStr ''sys'', PStr ''seg'']]))"
proof -
  let ?combs = "[(''lang'', [PStr ''en-de'', PStr ''de-en'']), (''level'', [PStr ''sys'', PStr ''seg''])]"
  from example_task_set obtain ts where
    ts: "TaskSet_init example_DATA (Some ?combs) [(''k'', PInt 5)] = Inr ts"
    and l: "map lang (tasks ts) = [''en-de'', ''en-de'', ''de-en'', ''de-en'']"
    and v: "map level (tasks ts) = [''sys'', ''seg'', ''sys'', ''seg'']"
    by (auto split: sum.splits)
  from TaskSet_cartesian_product [of example_DATA "[(''k'', PInt 5)]" ?combs ts] ts
  have "length (tasks ts) = 2 * 2"
    and "distinct (map (zip [''lang'', ''level''])
                    (product_lists [[PStr ''en-de'', PStr ''de-en''], [PStr ''sys'', PStr ''seg'']]))"
    by simp_all
  with ts l v show ?thesis
    by (intro exI [of _ ts]) simp
qed

end
